theory Spec2Isabelle
  imports Complex_Main "HOL-Library.Signed_Division"
begin

section \<open>Frostmist Pavilion: the time conversion core of app.js\<close>

text \<open>
  The development embeds three functions of \<^verbatim>\<open>src/frostmist-pavilion/app.js\<close>:
  \<^verbatim>\<open>getOffsetMinutes\<close>, \<^verbatim>\<open>convertTime\<close> and \<^verbatim>\<open>updateAllTimes\<close>, together with the
  global \<^verbatim>\<open>_tzOffsetCache\<close> they share. The repository holds a second, earlier copy of the
  script: its \<^verbatim>\<open>getOffsetMinutes\<close> and \<^verbatim>\<open>convertTime\<close> compute the same, and its
  \<^verbatim>\<open>updateAllTimes\<close> is the one below without the note prefix.

  Strings are \<open>char list\<close>. The code inspects a time string only through the regular
  expression \<^verbatim>\<open>/^\d{1,2}:\d{2}$/\<close> and \<^verbatim>\<open>split(':')\<close>, which look for ASCII digits and
  the colon; any other code unit behaves like any other non-digit, so a string outside
  ASCII may be read as its UTF-8 bytes (all of them above 127) without changing what the
  code does with it.

  Numbers are JavaScript doubles. Every number that occurs here is an integer of small
  magnitude (hours, minutes, offsets in minutes), for which double arithmetic, division
  followed by \<^verbatim>\<open>Math.floor\<close>, and \<^verbatim>\<open>%\<close> are exact; they are modelled on \<open>int\<close>, with
  \<open>NaN\<close> added.
\<close>

subsection \<open>JavaScript values\<close>

datatype js_error = RangeError

datatype number = Num int | NaN

text \<open>
  Besides numbers, two more kinds of value can reach the arithmetic of \<^verbatim>\<open>convertTime\<close>:
  a member that the cache object inherits from \<^verbatim>\<open>Object.prototype\<close> (a function, or the
  prototype object itself for \<^verbatim>\<open>__proto__\<close>), and the string that \<^verbatim>\<open>+\<close> builds when one
  operand is such a member (\<^verbatim>\<open>540 + Object\<close> is the text
  \<^verbatim>\<open>"540function Object() { [native code] }"\<close>). Such a string is never a numeric literal.
\<close>

datatype jsval = Number number | Inherited string | Text

fun ToNumber :: "jsval \<Rightarrow> number" where
  "ToNumber (Number n) = n"
| "ToNumber (Inherited k) = NaN"
| "ToNumber Text = NaN"

fun num_add :: "number \<Rightarrow> number \<Rightarrow> number" where
  "num_add (Num a) (Num b) = Num (a + b)"
| "num_add _ _ = NaN"

fun num_sub :: "number \<Rightarrow> number \<Rightarrow> number" where
  "num_sub (Num a) (Num b) = Num (a - b)"
| "num_sub _ _ = NaN"

fun num_mul :: "number \<Rightarrow> number \<Rightarrow> number" where
  "num_mul (Num a) (Num b) = Num (a * b)"
| "num_mul _ _ = NaN"

text \<open>\<^verbatim>\<open>a + b\<close>: numeric addition when both operands are numbers, concatenation of the
  operands' texts otherwise.\<close>

fun js_add :: "jsval \<Rightarrow> jsval \<Rightarrow> jsval" where
  "js_add (Number a) (Number b) = Number (num_add a b)"
| "js_add _ _ = Text"

text \<open>\<^verbatim>\<open>a - b\<close> converts both operands to numbers first.\<close>

definition js_sub :: "jsval \<Rightarrow> jsval \<Rightarrow> number" where
  "js_sub a b = num_sub (ToNumber a) (ToNumber b)"

text \<open>
  \<^verbatim>\<open>Math.floor(x / d)\<close> and \<^verbatim>\<open>x % d\<close> for a literal divisor \<open>d\<close> (1440 and 60 in the source,
  never zero). \<open>div\<close> on \<open>int\<close> rounds towards minus infinity as \<^verbatim>\<open>Math.floor\<close> does;
  \<^verbatim>\<open>%\<close> takes the sign of the dividend, which is \<open>smod\<close>.
\<close>

fun floor_div :: "number \<Rightarrow> int \<Rightarrow> number" where
  "floor_div (Num a) d = Num (a div d)"
| "floor_div NaN d = NaN"

fun js_rem :: "number \<Rightarrow> int \<Rightarrow> number" where
  "js_rem (Num a) d = Num (a smod d)"
| "js_rem NaN d = NaN"

text \<open>\<^verbatim>\<open>x !== 0\<close> and \<^verbatim>\<open>x > 0\<close> on numbers; every comparison with \<open>NaN\<close> but \<^verbatim>\<open>!==\<close> is false.\<close>

fun not_zero :: "number \<Rightarrow> bool" where
  "not_zero (Num a) = (a \<noteq> 0)"
| "not_zero NaN = True"

fun gt_zero :: "number \<Rightarrow> bool" where
  "gt_zero (Num a) = (0 < a)"
| "gt_zero NaN = False"

subsection \<open>Strings of digits\<close>

definition is_digit :: "char \<Rightarrow> bool" where
  "is_digit c = (48 \<le> (of_char c :: nat) \<and> (of_char c :: nat) \<le> 57)"

definition digit_val :: "char \<Rightarrow> int" where
  "digit_val c = int (of_char c) - 48"

definition digit_char :: "nat \<Rightarrow> char" where
  "digit_char d = char_of (48 + d)"

text \<open>\<^verbatim>\<open>Number(s)\<close> on a string of decimal digits: its decimal value, leading zeros
  allowed (\<^verbatim>\<open>Number("09")\<close> is 9). \<^verbatim>\<open>convertTime\<close> applies it to nothing else (lemma
  \<open>split_time\<close> below); the other numeric literal forms of JavaScript are left out.\<close>

definition js_Number :: "string \<Rightarrow> number" where
  "js_Number s =
     (if s \<noteq> [] \<and> list_all is_digit s
      then Num (foldl (\<lambda>acc c. 10 * acc + digit_val c) 0 s) else NaN)"

text \<open>\<^verbatim>\<open>String(n)\<close> for a number.\<close>

fun digits :: "nat \<Rightarrow> string" where
  "digits n = (if n < 10 then [digit_char n] else digits (n div 10) @ [digit_char (n mod 10)])"

fun js_String :: "number \<Rightarrow> string" where
  "js_String (Num a) = (if a < 0 then CHR ''-'' # digits (nat (- a)) else digits (nat a))"
| "js_String NaN = ''NaN''"

text \<open>\<^verbatim>\<open>s.padStart(n, '0')\<close>.\<close>

definition padStart :: "string \<Rightarrow> nat \<Rightarrow> string" where
  "padStart s n = replicate (n - length s) (CHR ''0'') @ s"

text \<open>\<^verbatim>\<open>/^\d{1,2}:\d{2}$/.test(s)\<close>: one or two digits, a colon, two digits, and nothing
  else (without the \<^verbatim>\<open>m\<close> flag, \<^verbatim>\<open>$\<close> matches at the end of the input only).\<close>

definition time_re_test :: "string \<Rightarrow> bool" where
  "time_re_test s =
     (case s of
        [h1, c, m1, m2] \<Rightarrow> is_digit h1 \<and> c = CHR '':'' \<and> is_digit m1 \<and> is_digit m2
      | [h1, h2, c, m1, m2] \<Rightarrow>
          is_digit h1 \<and> is_digit h2 \<and> c = CHR '':'' \<and> is_digit m1 \<and> is_digit m2
      | _ \<Rightarrow> False)"

text \<open>\<^verbatim>\<open>s.split(sep)\<close> for a one-character separator: \<^verbatim>\<open>"".split(':')\<close> is \<^verbatim>\<open>[""]\<close>.\<close>

fun split_on :: "char \<Rightarrow> string \<Rightarrow> string list" where
  "split_on sep [] = [[]]"
| "split_on sep (c # cs) =
     (if c = sep then [] # split_on sep cs
      else (c # hd (split_on sep cs)) # tl (split_on sep cs))"

text \<open>Array destructuring \<^verbatim>\<open>const [h, m] = xs\<close> reads \<^verbatim>\<open>xs[0]\<close> and \<^verbatim>\<open>xs[1]\<close>; a missing
  element is \<^verbatim>\<open>undefined\<close>, which the arithmetic that follows turns into \<open>NaN\<close>.\<close>

definition element_at :: "number list \<Rightarrow> nat \<Rightarrow> number" where
  "element_at xs i = (if i < length xs then xs ! i else NaN)"

subsection \<open>The offset cache and \<^verbatim>\<open>getOffsetMinutes\<close>\<close>

text \<open>
  \<^verbatim>\<open>const _tzOffsetCache = {}\<close> is an ordinary object: its own properties are the offsets
  stored so far, and a read \<^verbatim>\<open>_tzOffsetCache[tz]\<close> of a key that is not an own property
  goes on to \<^verbatim>\<open>Object.prototype\<close>. The own properties are a map from zone identifiers to
  minutes; \<open>cache_get\<close> is the read, with \<open>None\<close> for \<^verbatim>\<open>undefined\<close>.
\<close>

type_synonym cache = "string \<rightharpoonup> int"

definition Object_prototype_keys :: "string list" where
  "Object_prototype_keys =
     [''constructor'', ''hasOwnProperty'', ''isPrototypeOf'', ''propertyIsEnumerable'',
      ''toLocaleString'', ''toString'', ''valueOf'', ''__proto__'',
      ''__defineGetter__'', ''__defineSetter__'', ''__lookupGetter__'', ''__lookupSetter__'']"

definition cache_get :: "cache \<Rightarrow> string \<Rightarrow> jsval option" where
  "cache_get c k =
     (case c k of
        Some v \<Rightarrow> Some (Number (Num v))
      | None \<Rightarrow> if k \<in> set Object_prototype_keys then Some (Inherited k) else None)"

text \<open>
  The host's part of \<^verbatim>\<open>getOffsetMinutes\<close> is a parameter: for a zone identifier, either
  the \<^verbatim>\<open>RangeError\<close> that \<^verbatim>\<open>new Intl.DateTimeFormat('en-US', {timeZone: tz, ...})\<close> throws,
  or the hour and the minute that \<^verbatim>\<open>parseInt\<close> reads from the \<^verbatim>\<open>hour\<close> and \<^verbatim>\<open>minute\<close> parts
  of the reference instant 2024-01-15T12:00:00Z formatted in that zone.
  \<^verbatim>\<open>
  function getOffsetMinutes(tz) {
    if (_tzOffsetCache[tz] !== undefined) return _tzOffsetCache[tz];
    const ref = new Date('2024-01-15T12:00:00Z');
    const parts = new Intl.DateTimeFormat('en-US', {
      timeZone: tz, hour: '2-digit', minute: '2-digit', hour12: false,
    }).formatToParts(ref);
    let h = parseInt(parts.find(p => p.type === 'hour').value, 10);
    const m = parseInt(parts.find(p => p.type === 'minute').value, 10);
    if (h === 24) h = 0;
    return (_tzOffsetCache[tz] = 12 * 60 - (h * 60 + m));
  }
  \<close>
  The function returns its value, or the exception, together with the cache it leaves.
\<close>

type_synonym host = "string \<Rightarrow> js_error + int \<times> int"

definition getOffsetMinutes :: "host \<Rightarrow> cache \<Rightarrow> string \<Rightarrow> (js_error + jsval) \<times> cache" where
  "getOffsetMinutes fmt c tz =
     (case cache_get c tz of
        Some v \<Rightarrow> (Inr v, c)
      | None \<Rightarrow>
          (case fmt tz of
             Inl e \<Rightarrow> (Inl e, c)
           | Inr (h0, m) \<Rightarrow>
               let h = (if h0 = 24 then 0 else h0);
                   v = 12 * 60 - (h * 60 + m)
               in (Inr (Number (Num v)), c(tz \<mapsto> v))))"

subsection \<open>\<^verbatim>\<open>convertTime\<close>\<close>

text \<open>
  \<^verbatim>\<open>
  function convertTime(timeStr, fromTz, toTz) {
    if (fromTz === toTz || !/^\d{1,2}:\d{2}$/.test(timeStr)) {
      return { display: timeStr, dayOffset: 0 };
    }
    const [h, m] = timeStr.split(':').map(Number);
    const raw = h * 60 + m + getOffsetMinutes(fromTz) - getOffsetMinutes(toTz);
    const dayOffset  = Math.floor(raw / 1440);
    const normalized = ((raw % 1440) + 1440) % 1440;
    return {
      display: `${String(Math.floor(normalized / 60)).padStart(2,'0')}:${String(normalized % 60).padStart(2,'0')}`,
      dayOffset,
    };
  }
  \<close>
  The two calls of \<^verbatim>\<open>getOffsetMinutes\<close> run from left to right; an exception of either
  leaves \<^verbatim>\<open>convertTime\<close> at once, with the cache as the calls made so far have left it.
\<close>

record conversion =
  display :: string
  dayOffset :: number

definition convertTime ::
  "host \<Rightarrow> cache \<Rightarrow> string \<Rightarrow> string \<Rightarrow> string \<Rightarrow> (js_error + conversion) \<times> cache" where
  "convertTime fmt c timeStr fromTz toTz =
     (if fromTz = toTz \<or> \<not> time_re_test timeStr
      then (Inr \<lparr>display = timeStr, dayOffset = Num 0\<rparr>, c)
      else
        let hm = map js_Number (split_on (CHR '':'') timeStr);
            h = element_at hm 0;
            m = element_at hm 1
        in case getOffsetMinutes fmt c fromTz of
             (Inl e, c1) \<Rightarrow> (Inl e, c1)
           | (Inr oF, c1) \<Rightarrow>
               (case getOffsetMinutes fmt c1 toTz of
                  (Inl e, c2) \<Rightarrow> (Inl e, c2)
                | (Inr oT, c2) \<Rightarrow>
                    let raw = js_sub (js_add (Number (num_add (num_mul h (Num 60)) m)) oF) oT;
                        dayOffset = floor_div raw 1440;
                        normalized = js_rem (num_add (js_rem raw 1440) (Num 1440)) 1440
                    in (Inr \<lparr>display =
                               padStart (js_String (floor_div normalized 60)) 2 @ '':'' @
                               padStart (js_String (js_rem normalized 60)) 2,
                             dayOffset = dayOffset\<rparr>, c2)))"

subsection \<open>\<^verbatim>\<open>updateAllTimes\<close>\<close>

text \<open>
  \<^verbatim>\<open>
  function updateAllTimes() {
    const fromTz = currentConfig.baseTimezone || 'Asia/Taipei';
    document.querySelectorAll('[data-base-time]').forEach(el => {
      const { display, dayOffset } = convertTime(el.dataset.baseTime, fromTz, currentTimezone);
      const prefix = el.dataset.notePrefix || '';
      while (el.firstChild) el.removeChild(el.firstChild);
      el.appendChild(document.createTextNode(prefix + display));
      if (dayOffset !== 0) {
        const badge = document.createElement('span');
        badge.className = 'day-offset';
        badge.textContent = dayOffset > 0 ? '+1' : '-1';
        el.appendChild(badge);
      }
    });
  }
  \<close>
  The function runs from the click handler of a zone option only, after \<^verbatim>\<open>renderPoster\<close> has
  set \<^verbatim>\<open>currentConfig\<close> and the handler has set \<^verbatim>\<open>currentTimezone\<close>. The page is the state
  it reads and writes: the \<^verbatim>\<open>baseTimezone\<close> of the configuration, the selected zone, the
  cache, and the elements that \<^verbatim>\<open>document.querySelectorAll('[data-base-time]')\<close> returns, in
  document order. Each element carries its \<^verbatim>\<open>data-base-time\<close>, an optional
  \<^verbatim>\<open>data-note-prefix\<close>, and its child nodes: text nodes and \<^verbatim>\<open><span class="day-offset">\<close>
  badges.
\<close>

datatype node = TextNode string | Badge string

record element =
  baseTime :: string
  notePrefix :: "string option"
  childNodes :: "node list"

record page =
  baseTimezone :: "string option"
  currentTimezone :: string
  tzOffsetCache :: cache
  document :: "element list"

text \<open>\<^verbatim>\<open>x || d\<close> on an optional string: \<^verbatim>\<open>undefined\<close> and the empty string are falsy.\<close>

definition or_default :: "string option \<Rightarrow> string \<Rightarrow> string" where
  "or_default x d = (case x of None \<Rightarrow> d | Some s \<Rightarrow> if s = [] then d else s)"

text \<open>The body of the \<^verbatim>\<open>forEach\<close> callback after the conversion: the children are
  removed, the text node is appended, then the badge when \<^verbatim>\<open>dayOffset !== 0\<close>.\<close>

definition rewrite :: "element \<Rightarrow> conversion \<Rightarrow> element" where
  "rewrite el r =
     el\<lparr>childNodes :=
          TextNode (or_default (notePrefix el) [] @ display r) #
          (if not_zero (dayOffset r)
           then [Badge (if gt_zero (dayOffset r) then ''+1'' else ''-1'')] else [])\<rparr>"

text \<open>The \<^verbatim>\<open>forEach\<close> loop. An exception thrown by \<^verbatim>\<open>convertTime\<close> leaves the loop: the
  elements before are rewritten, the element at hand and those after it are untouched.\<close>

fun update_each ::
  "host \<Rightarrow> string \<Rightarrow> string \<Rightarrow> cache \<Rightarrow> element list \<Rightarrow> js_error option \<times> cache \<times> element list" where
  "update_each fmt fromTz toTz c [] = (None, c, [])"
| "update_each fmt fromTz toTz c (el # els) =
     (case convertTime fmt c (baseTime el) fromTz toTz of
        (Inl e, c1) \<Rightarrow> (Some e, c1, el # els)
      | (Inr r, c1) \<Rightarrow>
          (case update_each fmt fromTz toTz c1 els of
             (st, c2, els') \<Rightarrow> (st, c2, rewrite el r # els')))"

definition updateAllTimes :: "host \<Rightarrow> page \<Rightarrow> js_error option \<times> page" where
  "updateAllTimes fmt p =
     (let fromTz = or_default (baseTimezone p) ''Asia/Taipei''
      in case update_each fmt fromTz (currentTimezone p) (tzOffsetCache p) (document p) of
           (st, c, els) \<Rightarrow> (st, p\<lparr>tzOffsetCache := c, document := els\<rparr>))"

subsection \<open>Derived notions used in the statements\<close>

text \<open>The value, or the exception, that \<^verbatim>\<open>getOffsetMinutes(tz)\<close> yields in cache state \<open>c\<close>.\<close>

definition offset :: "host \<Rightarrow> cache \<Rightarrow> string \<Rightarrow> js_error + jsval" where
  "offset fmt c tz = fst (getOffsetMinutes fmt c tz)"

text \<open>The arithmetic of \<^verbatim>\<open>convertTime\<close> once both offsets are at hand, as a function of its
  own (lemma \<open>convertTime_fst\<close> ties it to \<^verbatim>\<open>convertTime\<close>).\<close>

definition conversion_of :: "string \<Rightarrow> jsval \<Rightarrow> jsval \<Rightarrow> conversion" where
  "conversion_of timeStr oF oT =
     (let hm = map js_Number (split_on (CHR '':'') timeStr);
          raw = js_sub (js_add (Number (num_add (num_mul (element_at hm 0) (Num 60)) (element_at hm 1))) oF) oT;
          normalized = js_rem (num_add (js_rem raw 1440) (Num 1440)) 1440
      in \<lparr>display = padStart (js_String (floor_div normalized 60)) 2 @ '':'' @
                     padStart (js_String (js_rem normalized 60)) 2,
          dayOffset = floor_div raw 1440\<rparr>)"

text \<open>
  A host for the examples. At 2024-01-15T12:00:00Z it is 20:00 in Asia/Taipei and
  Asia/Shanghai (UTC+8), 07:00 in America/New_York (UTC-5), 12:00 in UTC, midnight of
  the next day in Pacific/Fiji (UTC+12), formatted with hour 24, and 01:00 of the next day
  in Pacific/Auckland (UTC+13 in January); any other identifier is rejected.
\<close>

definition demo_host :: host where
  "demo_host tz =
     (if tz = ''Asia/Taipei'' \<or> tz = ''Asia/Shanghai'' then Inr (20, 0)
      else if tz = ''America/New_York'' then Inr (7, 0)
      else if tz = ''Pacific/Fiji'' then Inr (24, 0)
      else if tz = ''Pacific/Auckland'' then Inr (1, 0)
      else if tz = ''UTC'' then Inr (12, 0)
      else Inl RangeError)"

text \<open>
  What a host's clock shows: in a zone that is \<open>east\<close> minutes ahead of UTC (behind, when
  \<open>east\<close> is negative), the reference instant 12:00 UTC is the minute \<open>720 + east\<close> of the
  UTC day, and the clock shows its hour and minute within the local day. The doc comment of
  \<^verbatim>\<open>getOffsetMinutes\<close> promises \<^verbatim>\<open>UTC_minutes - local_minutes\<close>, which is \<open>- east\<close>.
\<close>

definition local_clock :: "int \<Rightarrow> int \<times> int" where
  "local_clock east = ((720 + east) mod 1440 div 60, (720 + east) mod 1440 mod 60)"

text \<open>The placeholder \<^verbatim>\<open>"\<close>time to be decided\<^verbatim>\<open>"\<close> of the configuration (four CJK characters),
  as UTF-8 bytes.\<close>

definition time_tbd :: string where
  "time_tbd = [CHR 0xE6, CHR 0x99, CHR 0x82, CHR 0xE9, CHR 0x96, CHR 0x93,
               CHR 0xE5, CHR 0xBE, CHR 0x85, CHR 0xE5, CHR 0xAE, CHR 0x9A]"

text \<open>
  The cache after \<^verbatim>\<open>getOffsetMinutes\<close> has been called for each identifier of a list in
  turn. \<^verbatim>\<open>getOffsetMinutes\<close> is the only code that writes to the cache, so these are the
  cache states that the page reaches from \<open>c\<close>.
\<close>

fun after_calls :: "host \<Rightarrow> cache \<Rightarrow> string list \<Rightarrow> cache" where
  "after_calls fmt c [] = c"
| "after_calls fmt c (tz # tzs) = after_calls fmt (snd (getOffsetMinutes fmt c tz)) tzs"

text \<open>
  No name that the cache object inherits is a zone identifier: a host rejects all of them.
\<close>

definition well_formed_host :: "host \<Rightarrow> bool" where
  "well_formed_host fmt = (\<forall>k \<in> set Object_prototype_keys. fmt k = Inl RangeError)"

text \<open>
  A page for the examples: no \<^verbatim>\<open>baseTimezone\<close> in the configuration (so Asia/Taipei), America/New_York
  selected, an empty cache and three time-bearing elements as the first rendering leaves
  them.
\<close>

definition demo_page :: page where
  "demo_page =
     \<lparr>baseTimezone = None,
      currentTimezone = ''America/New_York'',
      tzOffsetCache = Map.empty,
      document =
        [\<lparr>baseTime = ''09:00'', notePrefix = None, childNodes = [TextNode ''09:00'']\<rparr>,
         \<lparr>baseTime = ''23:30'', notePrefix = Some ''Boss '',
          childNodes = [TextNode ''Boss 23:30'']\<rparr>,
         \<lparr>baseTime = time_tbd, notePrefix = None, childNodes = [TextNode time_tbd]\<rparr>]\<rparr>"

section \<open>Basic facts\<close>

subsection \<open>Digits, the regular expression and the split\<close>

declare digits.simps [simp del]

declare js_String.simps [simp del]

lemma digit_char_0: "digit_char 0 = CHR ''0''"
  by code_simp

lemma digits_small: "n < 10 \<Longrightarrow> digits n = [digit_char n]"
  by (subst digits.simps) simp

lemma digits_two: "10 \<le> n \<Longrightarrow> n < 100 \<Longrightarrow> digits n = [digit_char (n div 10), digit_char (n mod 10)]"
  by (subst digits.simps) (simp add: digits_small)

lemma two_digits:
  assumes "n < 100"
  shows "padStart (js_String (Num (int n))) 2 = [digit_char (n div 10), digit_char (n mod 10)]"
proof (cases "n < 10")
  case True
  then show ?thesis by (simp add: padStart_def js_String.simps digits_small digit_char_0)
next
  case False
  with assms show ?thesis by (simp add: padStart_def js_String.simps digits_two)
qed

lemma is_digit_digit_char: "d < 10 \<Longrightarrow> is_digit (digit_char d)"
  by (simp add: digit_char_def is_digit_def)

lemma digit_val_digit_char: "d < 10 \<Longrightarrow> digit_val (digit_char d) = int d"
  by (simp add: digit_char_def digit_val_def)

lemma digit_val_range: "is_digit c \<Longrightarrow> 0 \<le> digit_val c \<and> digit_val c \<le> 9"
  by (auto simp: is_digit_def digit_val_def)

lemma is_digit_not_colon: "is_digit c \<Longrightarrow> c \<noteq> CHR '':''"
  by (auto simp: is_digit_def)

lemma time_re_test_iff:
  "time_re_test s \<longleftrightarrow>
     (\<exists>a m1 m2. s = [a, CHR '':'', m1, m2] \<and> is_digit a \<and> is_digit m1 \<and> is_digit m2) \<or>
     (\<exists>a b m1 m2. s = [a, b, CHR '':'', m1, m2] \<and> is_digit a \<and> is_digit b \<and> is_digit m1 \<and> is_digit m2)"
  by (auto simp: time_re_test_def split: list.splits)

lemma js_Number_1: "is_digit a \<Longrightarrow> js_Number [a] = Num (digit_val a)"
  by (simp add: js_Number_def)

lemma js_Number_2: "is_digit a \<Longrightarrow> is_digit b \<Longrightarrow> js_Number [a, b] = Num (10 * digit_val a + digit_val b)"
  by (simp add: js_Number_def)

lemma split_short:
  assumes "is_digit a" "is_digit m1" "is_digit m2"
  shows "map js_Number (split_on (CHR '':'') [a, CHR '':'', m1, m2]) =
           [Num (digit_val a), Num (10 * digit_val m1 + digit_val m2)]"
  using assms by (simp add: js_Number_1 js_Number_2 is_digit_not_colon)

lemma split_long:
  assumes "is_digit a" "is_digit b" "is_digit m1" "is_digit m2"
  shows "map js_Number (split_on (CHR '':'') [a, b, CHR '':'', m1, m2]) =
           [Num (10 * digit_val a + digit_val b), Num (10 * digit_val m1 + digit_val m2)]"
  using assms by (simp add: js_Number_1 js_Number_2 is_digit_not_colon)

lemma split_time:
  assumes "time_re_test s"
  shows "\<exists>h m. map js_Number (split_on (CHR '':'') s) = [Num h, Num m] \<and>
           0 \<le> h \<and> h \<le> 99 \<and> 0 \<le> m \<and> m \<le> 99"
proof -
  from assms consider
    (short) a m1 m2 where "s = [a, CHR '':'', m1, m2]" "is_digit a" "is_digit m1" "is_digit m2"
  | (long) a b m1 m2 where "s = [a, b, CHR '':'', m1, m2]" "is_digit a" "is_digit b"
      "is_digit m1" "is_digit m2"
    unfolding time_re_test_iff by blast
  then show ?thesis
  proof cases
    case short
    from digit_val_range [OF short(2)] digit_val_range [OF short(3)] digit_val_range [OF short(4)]
    show ?thesis unfolding short(1) split_short [OF short(2-4)] by auto
  next
    case long
    from digit_val_range [OF long(2)] digit_val_range [OF long(3)]
      digit_val_range [OF long(4)] digit_val_range [OF long(5)]
    show ?thesis unfolding long(1) split_long [OF long(2-5)] by auto
  qed
qed

lemma normalized_eq: "((raw smod 1440) + 1440) smod 1440 = raw mod (1440::int)"
  by (auto simp: signed_modulo_int_def sgn_if abs_if zmod_zminus1_eq_if)

text \<open>\<open>div\<close> on \<open>int\<close> is the floor of the quotient, which \<^verbatim>\<open>Math.floor(raw / 1440)\<close> computes.\<close>

lemma div_is_floor: "a div d = \<lfloor>real_of_int a / real_of_int d\<rfloor>"
  by (simp add: floor_divide_of_int_eq)

subsection \<open>The cache\<close>

lemma getOffsetMinutes_cached:
  "cache_get c tz = Some v \<Longrightarrow> getOffsetMinutes fmt c tz = (Inr v, c)"
  by (simp add: getOffsetMinutes_def)

lemma getOffsetMinutes_throws:
  "cache_get c tz = None \<Longrightarrow> fmt tz = Inl e \<Longrightarrow> getOffsetMinutes fmt c tz = (Inl e, c)"
  by (simp add: getOffsetMinutes_def)

lemma getOffsetMinutes_computes:
  "cache_get c tz = None \<Longrightarrow> fmt tz = Inr (h0, m) \<Longrightarrow>
   getOffsetMinutes fmt c tz =
     (Inr (Number (Num (12 * 60 - ((if h0 = 24 then 0 else h0) * 60 + m)))),
      c(tz \<mapsto> 12 * 60 - ((if h0 = 24 then 0 else h0) * 60 + m)))"
  by (simp add: getOffsetMinutes_def Let_def)

lemma cache_get_upd_same: "cache_get (c(k \<mapsto> v)) k = Some (Number (Num v))"
  by (simp add: cache_get_def)

lemma cache_get_upd_other: "k' \<noteq> k \<Longrightarrow> cache_get (c(k \<mapsto> v)) k' = cache_get c k'"
  by (simp add: cache_get_def)

lemma getOffsetMinutes_shape:
  "snd (getOffsetMinutes fmt c tz) = c \<or>
   (\<exists>v. cache_get c tz = None \<and> getOffsetMinutes fmt c tz = (Inr (Number (Num v)), c(tz \<mapsto> v)))"
  by (auto simp: getOffsetMinutes_def Let_def split: option.splits sum.splits)

lemma offset_stable: "offset fmt (snd (getOffsetMinutes fmt c a)) b = offset fmt c b"
proof -
  consider "snd (getOffsetMinutes fmt c a) = c"
    | v where "cache_get c a = None" "getOffsetMinutes fmt c a = (Inr (Number (Num v)), c(a \<mapsto> v))"
    using getOffsetMinutes_shape [of fmt c a] by blast
  then show ?thesis
  proof cases
    case 1
    then show ?thesis by simp
  next
    case 2
    show ?thesis
    proof (cases "b = a")
      case True
      with 2 show ?thesis
        by (simp add: offset_def getOffsetMinutes_cached [OF cache_get_upd_same])
    next
      case False
      with 2 show ?thesis
        by (simp add: offset_def getOffsetMinutes_def cache_get_upd_other Let_def
              split: option.splits sum.splits)
    qed
  qed
qed

lemma getOffsetMinutes_stores:
  assumes "getOffsetMinutes fmt c tz = (Inr v, c')"
  shows "cache_get c' tz = Some v"
proof (cases "cache_get c tz")
  case (Some w)
  with assms show ?thesis by (simp add: getOffsetMinutes_cached)
next
  case None
  show ?thesis
  proof (cases "fmt tz")
    case (Inl e)
    with None assms show ?thesis by (simp add: getOffsetMinutes_throws)
  next
    case (Inr hm)
    obtain h0 m where "hm = (h0, m)" by (cases hm)
    with None Inr assms show ?thesis
      by (auto simp: getOffsetMinutes_computes cache_get_upd_same)
  qed
qed

lemma getOffsetMinutes_throws_keeps:
  assumes "getOffsetMinutes fmt c tz = (Inl e, c')"
  shows "c' = c \<and> cache_get c tz = None \<and> fmt tz = Inl e"
  using assms by (auto simp: getOffsetMinutes_def Let_def split: option.splits sum.splits)

lemma convertTime_guard:
  "fromTz = toTz \<or> \<not> time_re_test timeStr \<Longrightarrow>
   convertTime fmt c timeStr fromTz toTz = (Inr \<lparr>display = timeStr, dayOffset = Num 0\<rparr>, c)"
  by (simp add: convertTime_def)

lemma convertTime_fst:
  "fst (convertTime fmt c t A B) =
     (if A = B \<or> \<not> time_re_test t then Inr \<lparr>display = t, dayOffset = Num 0\<rparr>
      else case offset fmt c A of
             Inl e \<Rightarrow> Inl e
           | Inr oF \<Rightarrow> (case offset fmt c B of
                          Inl e \<Rightarrow> Inl e
                        | Inr oT \<Rightarrow> Inr (conversion_of t oF oT)))"
proof (cases "A = B \<or> \<not> time_re_test t")
  case True
  then show ?thesis by (simp add: convertTime_guard)
next
  case False
  obtain r1 c1 where g1: "getOffsetMinutes fmt c A = (r1, c1)" by (cases "getOffsetMinutes fmt c A")
  obtain r2 c2 where g2: "getOffsetMinutes fmt c1 B = (r2, c2)" by (cases "getOffsetMinutes fmt c1 B")
  have o1: "offset fmt c A = r1" using g1 by (simp add: offset_def)
  have "offset fmt c1 B = offset fmt c B" using offset_stable [of fmt c A B] g1 by simp
  then have o2: "offset fmt c B = r2" using g2 by (simp add: offset_def)
  show ?thesis using False g1 g2
    by (simp add: convertTime_def o1 o2 conversion_of_def Let_def split: sum.splits)
qed

subsection \<open>The arithmetic of a conversion\<close>

lemma smod_nonneg: "0 \<le> n \<Longrightarrow> n smod 60 = n mod (60::int)"
  by (simp add: signed_modulo_int_def sgn_if)

lemma conversion_of_numeric:
  fixes h m oF oT :: int
  defines "raw \<equiv> h * 60 + m + oF - oT"
  assumes "map js_Number (split_on (CHR '':'') t) = [Num h, Num m]"
  shows "conversion_of t (Number (Num oF)) (Number (Num oT)) =
           \<lparr>display = padStart (js_String (Num (raw mod 1440 div 60))) 2 @ '':'' @
                       padStart (js_String (Num (raw mod 1440 mod 60))) 2,
            dayOffset = Num (raw div 1440)\<rparr>"
proof -
  have "0 \<le> raw mod 1440" by simp
  then have "(raw mod 1440) smod 60 = raw mod 1440 mod 60" by (rule smod_nonneg)
  then show ?thesis
    using assms(2)
    by (simp add: conversion_of_def element_at_def js_sub_def normalized_eq raw_def)
qed

lemma two_digits_int:
  assumes "0 \<le> k" "k < 100"
  shows "padStart (js_String (Num k)) 2 =
           [digit_char (nat k div 10), digit_char (nat k mod 10)]"
  using two_digits [of "nat k"] assms by simp

lemma read_two_digits:
  assumes "0 \<le> k" "k < 100"
  shows "js_Number [digit_char (nat k div 10), digit_char (nat k mod 10)] = Num k"
proof -
  have a: "nat k div 10 < 10" and b: "nat k mod 10 < 10" using assms by auto
  have "10 * int (nat k div 10) + int (nat k mod 10) = k"
    using assms by (simp add: zdiv_int zmod_int)
  then show ?thesis
    by (simp add: js_Number_2 is_digit_digit_char a b digit_val_digit_char)
qed

lemma convertTime_snd:
  "snd (convertTime fmt c t A B) =
     (if A = B \<or> \<not> time_re_test t then c
      else case getOffsetMinutes fmt c A of
             (Inl e, c1) \<Rightarrow> c1
           | (Inr oF, c1) \<Rightarrow> snd (getOffsetMinutes fmt c1 B))"
  by (simp add: convertTime_def Let_def split: prod.splits sum.splits)

lemma convertTime_offset_stable:
  "offset fmt (snd (convertTime fmt c t A B)) z = offset fmt c z"
proof -
  obtain r1 c1 where g1: "getOffsetMinutes fmt c A = (r1, c1)" by (cases "getOffsetMinutes fmt c A")
  have s1: "offset fmt c1 z = offset fmt c z"
    using offset_stable [of fmt c A z] g1 by simp
  have s2: "offset fmt (snd (getOffsetMinutes fmt c1 B)) z = offset fmt c z"
    using offset_stable [of fmt c1 B z] s1 by simp
  show ?thesis
    by (simp add: convertTime_snd g1 s1 s2 split: sum.splits)
qed

lemma display_two_digit:
  fixes n :: int
  defines "H \<equiv> nat (n div 60)" and "M \<equiv> nat (n mod 60)"
  assumes "0 \<le> n" "n < 1440"
  shows "padStart (js_String (Num (n div 60))) 2 @ '':'' @ padStart (js_String (Num (n mod 60))) 2 =
           [digit_char (H div 10), digit_char (H mod 10), CHR '':'',
            digit_char (M div 10), digit_char (M mod 10)]"
    and "H \<le> 23" and "M \<le> 59"
proof -
  have h: "0 \<le> n div 60" "n div 60 < 24" using assms(3,4) by auto
  have m: "0 \<le> n mod 60" "n mod 60 < 60" by auto
  show "H \<le> 23" "M \<le> 59" using h m by (auto simp: H_def M_def)
  show "padStart (js_String (Num (n div 60))) 2 @ '':'' @ padStart (js_String (Num (n mod 60))) 2 =
           [digit_char (H div 10), digit_char (H mod 10), CHR '':'',
            digit_char (M div 10), digit_char (M mod 10)]"
  proof -
    have "padStart (js_String (Num (n div 60))) 2 = [digit_char (H div 10), digit_char (H mod 10)]"
      unfolding H_def using h by (intro two_digits_int) simp_all
    moreover
    have "padStart (js_String (Num (n mod 60))) 2 = [digit_char (M div 10), digit_char (M mod 10)]"
      unfolding M_def using m by (intro two_digits_int) simp_all
    ultimately show ?thesis by simp
  qed
qed

lemma two_digit_time:
  assumes "H \<le> 99" "M \<le> 99"
  defines "s \<equiv> [digit_char (H div 10), digit_char (H mod 10), CHR '':'',
                digit_char (M div 10), digit_char (M mod 10)]"
  shows "time_re_test s"
    and "map js_Number (split_on (CHR '':'') s) = [Num (int H), Num (int M)]"
proof -
  have d: "is_digit (digit_char (H div 10))" "is_digit (digit_char (H mod 10))"
          "is_digit (digit_char (M div 10))" "is_digit (digit_char (M mod 10))"
    using assms(1,2) by (simp_all add: is_digit_digit_char)
  show "time_re_test s" unfolding s_def time_re_test_iff using d by simp
  have "js_Number [digit_char (H div 10), digit_char (H mod 10)] = Num (int H)"
       "js_Number [digit_char (M div 10), digit_char (M mod 10)] = Num (int M)"
    using read_two_digits [of "int H"] read_two_digits [of "int M"] assms(1,2) by simp_all
  then show "map js_Number (split_on (CHR '':'') s) = [Num (int H), Num (int M)]"
    unfolding s_def using d by (simp add: is_digit_not_colon)
qed

subsection \<open>Cache states that the page reaches\<close>

lemma after_calls_append:
  "after_calls fmt c (xs @ ys) = after_calls fmt (after_calls fmt c xs) ys"
  by (induction xs arbitrary: c) simp_all

lemma after_calls_offset: "offset fmt (after_calls fmt c tzs) tz = offset fmt c tz"
  by (induction tzs arbitrary: c) (simp_all add: offset_stable)

lemma getOffsetMinutes_keeps_entry:
  "c k = Some x \<Longrightarrow> snd (getOffsetMinutes fmt c tz) k = Some x"
  using getOffsetMinutes_shape [of fmt c tz]
  by (auto simp: cache_get_def split: option.splits)

lemma after_calls_keeps_entry:
  "c k = Some x \<Longrightarrow> after_calls fmt c tzs k = Some x"
  by (induction tzs arbitrary: c) (simp_all add: getOffsetMinutes_keeps_entry)

lemma getOffsetMinutes_keeps_read:
  "cache_get c k = Some v \<Longrightarrow> cache_get (snd (getOffsetMinutes fmt c tz)) k = Some v"
  using getOffsetMinutes_shape [of fmt c tz]
  by (cases "k = tz") (auto simp: cache_get_upd_other)

lemma after_calls_keeps_read:
  "cache_get c k = Some v \<Longrightarrow> cache_get (after_calls fmt c tzs) k = Some v"
  by (induction tzs arbitrary: c) (simp_all add: getOffsetMinutes_keeps_read)

lemma convertTime_after_calls:
  "\<exists>tzs. snd (convertTime fmt c t A B) = after_calls fmt c tzs"
proof (cases "A = B \<or> \<not> time_re_test t")
  case True
  then have "snd (convertTime fmt c t A B) = after_calls fmt c []"
    by (simp add: convertTime_guard)
  then show ?thesis ..
next
  case False
  obtain r1 c1 where g1: "getOffsetMinutes fmt c A = (r1, c1)" by (cases "getOffsetMinutes fmt c A")
  show ?thesis
  proof (cases r1)
    case (Inl e)
    with False g1 have "snd (convertTime fmt c t A B) = after_calls fmt c [A]"
      by (simp add: convertTime_snd)
    then show ?thesis ..
  next
    case (Inr v)
    with False g1 have "snd (convertTime fmt c t A B) = after_calls fmt c [A, B]"
      by (simp add: convertTime_snd)
    then show ?thesis ..
  qed
qed

lemma update_each_after_calls:
  "\<exists>tzs. fst (snd (update_each fmt A B c els)) = after_calls fmt c tzs"
proof (induction els arbitrary: c)
  case Nil
  have "fst (snd (update_each fmt A B c [])) = after_calls fmt c []" by simp
  then show ?case ..
next
  case (Cons el els)
  obtain x c1 where s: "convertTime fmt c (baseTime el) A B = (x, c1)"
    by (cases "convertTime fmt c (baseTime el) A B")
  obtain xs where xs: "c1 = after_calls fmt c xs"
    using convertTime_after_calls [of fmt c "baseTime el" A B] s by auto
  show ?case
  proof (cases x)
    case (Inl e)
    with s xs have "fst (snd (update_each fmt A B c (el # els))) = after_calls fmt c xs" by simp
    then show ?thesis ..
  next
    case (Inr r)
    obtain ys where "fst (snd (update_each fmt A B c1 els)) = after_calls fmt c1 ys"
      using Cons.IH by blast
    with s xs Inr have "fst (snd (update_each fmt A B c (el # els))) = after_calls fmt c (xs @ ys)"
      by (auto simp: after_calls_append split: prod.splits)
    then show ?thesis ..
  qed
qed

lemma updateAllTimes_after_calls:
  "\<exists>tzs. tzOffsetCache (snd (updateAllTimes fmt p)) = after_calls fmt (tzOffsetCache p) tzs"
proof -
  obtain tzs where
    "fst (snd (update_each fmt (or_default (baseTimezone p) ''Asia/Taipei'') (currentTimezone p)
          (tzOffsetCache p) (document p))) = after_calls fmt (tzOffsetCache p) tzs"
    using update_each_after_calls by blast
  then have "tzOffsetCache (snd (updateAllTimes fmt p)) = after_calls fmt (tzOffsetCache p) tzs"
    by (auto simp: updateAllTimes_def split: prod.splits)
  then show ?thesis ..
qed

lemma well_formed_demo_host: "well_formed_host demo_host"
  by (simp add: well_formed_host_def Object_prototype_keys_def demo_host_def)

subsection \<open>Exceptions\<close>

lemma offset_throws:
  "cache_get c tz = None \<Longrightarrow> fmt tz = Inl e \<Longrightarrow> offset fmt c tz = Inl e"
  by (simp add: offset_def getOffsetMinutes_throws)

lemma convertTime_propagates_from:
  assumes "time_re_test t" "A \<noteq> B" "offset fmt c A = Inl e"
  shows "fst (convertTime fmt c t A B) = Inl e"
  using assms by (simp add: convertTime_fst)

lemma convertTime_propagates_to:
  assumes "time_re_test t" "A \<noteq> B" "offset fmt c A = Inr v" "offset fmt c B = Inl e"
  shows "fst (convertTime fmt c t A B) = Inl e"
  using assms by (simp add: convertTime_fst)

lemma update_each_propagates:
  assumes "fst (convertTime fmt c (baseTime el) A B) = Inl e"
  shows "\<exists>c'. update_each fmt A B c (el # els) = (Some e, c', el # els)"
  using assms by (cases "convertTime fmt c (baseTime el) A B") auto

subsection \<open>The loop of \<^verbatim>\<open>updateAllTimes\<close>\<close>

lemma convertTime_fst_cong:
  assumes "offset fmt c = offset fmt c'"
  shows "fst (convertTime fmt c t A B) = fst (convertTime fmt c' t A B)"
  by (simp only: convertTime_fst assms)

lemma convertTime_offsets: "offset fmt (snd (convertTime fmt c t A B)) = offset fmt c"
  by (rule ext) (rule convertTime_offset_stable)

lemma rewrite_fields [simp]:
  "baseTime (rewrite el r) = baseTime el" "notePrefix (rewrite el r) = notePrefix el"
  by (simp_all add: rewrite_def)

lemma rewrite_twice [simp]: "rewrite (rewrite el r) r = rewrite el r"
  by (simp add: rewrite_def)

lemma update_each_cong:
  assumes "offset fmt c = offset fmt c'"
  shows "fst (update_each fmt A B c els) = fst (update_each fmt A B c' els) \<and>
         snd (snd (update_each fmt A B c els)) = snd (snd (update_each fmt A B c' els))"
  using assms
proof (induction els arbitrary: c c')
  case Nil
  then show ?case by simp
next
  case (Cons el els)
  obtain x c1 where s: "convertTime fmt c (baseTime el) A B = (x, c1)"
    by (cases "convertTime fmt c (baseTime el) A B")
  obtain x' c1' where s': "convertTime fmt c' (baseTime el) A B = (x', c1')"
    by (cases "convertTime fmt c' (baseTime el) A B")
  have x: "x' = x"
    using convertTime_fst_cong [OF Cons.prems, of "baseTime el" A B] s s' by simp
  have "offset fmt c1 = offset fmt c1'"
    using convertTime_offsets [of fmt c "baseTime el" A B]
      convertTime_offsets [of fmt c' "baseTime el" A B] s s' Cons.prems by simp
  from Cons.IH [OF this] show ?case
    using s s' x by (cases x) (auto split: prod.splits)
qed

lemma update_each_nodes:
  assumes "update_each fmt A B c els = (None, c', els')"
  shows "list_all2 (\<lambda>el el'. \<exists>r. fst (convertTime fmt c (baseTime el) A B) = Inr r \<and>
                              el' = rewrite el r) els els'"
  using assms
proof (induction els arbitrary: c c' els')
  case Nil
  then show ?case by simp
next
  case (Cons el els)
  obtain x c1 where s: "convertTime fmt c (baseTime el) A B = (x, c1)"
    by (cases "convertTime fmt c (baseTime el) A B")
  from Cons.prems s obtain r where r: "x = Inr r" by (cases x) auto
  obtain st c2 els2 where u: "update_each fmt A B c1 els = (st, c2, els2)"
    by (cases "update_each fmt A B c1 els")
  from Cons.prems s r u have e: "st = None" "els' = rewrite el r # els2" by simp_all
  have o: "offset fmt c1 = offset fmt c"
    using convertTime_offsets [of fmt c "baseTime el" A B] s by simp
  have "list_all2 (\<lambda>el el'. \<exists>r. fst (convertTime fmt c1 (baseTime el) A B) = Inr r \<and>
                              el' = rewrite el r) els els2"
    using Cons.IH u e(1) by simp
  then have "list_all2 (\<lambda>el el'. \<exists>r. fst (convertTime fmt c (baseTime el) A B) = Inr r \<and>
                              el' = rewrite el r) els els2"
    by (simp add: convertTime_fst_cong [OF o])
  then show ?case using s r e(2) by simp
qed

lemma childNodes_rewrite:
  "childNodes (rewrite el r) =
     TextNode (or_default (notePrefix el) [] @ display r) #
     (case dayOffset r of
        Num d \<Rightarrow> if d = 0 then [] else if 0 < d then [Badge ''+1''] else [Badge ''-1'']
      | NaN \<Rightarrow> [Badge ''-1''])"
  by (cases "dayOffset r") (simp_all add: rewrite_def)

lemma or_default_empty: "or_default x [] = (case x of None \<Rightarrow> [] | Some s \<Rightarrow> s)"
  by (simp add: or_default_def split: option.splits)

lemma getOffsetMinutes_idem:
  assumes "getOffsetMinutes fmt c z = (r, c')"
  shows "getOffsetMinutes fmt c' z = (r, c')"
proof (cases r)
  case (Inl e)
  with assms show ?thesis using getOffsetMinutes_throws_keeps [of fmt c z e c'] by simp
next
  case (Inr v)
  with assms have "cache_get c' z = Some v" by (simp add: getOffsetMinutes_stores)
  with Inr show ?thesis by (simp add: getOffsetMinutes_cached)
qed

lemma getOffsetMinutes_settled_step:
  assumes "getOffsetMinutes fmt c z = (r, c)"
  shows "getOffsetMinutes fmt (snd (getOffsetMinutes fmt c y)) z = (r, snd (getOffsetMinutes fmt c y))"
proof (cases r)
  case (Inr v)
  with assms have "cache_get c z = Some v" by (simp add: getOffsetMinutes_stores)
  then have "cache_get (snd (getOffsetMinutes fmt c y)) z = Some v"
    by (rule getOffsetMinutes_keeps_read)
  with Inr show ?thesis by (simp add: getOffsetMinutes_cached)
next
  case (Inl e)
  with assms have z: "cache_get c z = None" "fmt z = Inl e"
    using getOffsetMinutes_throws_keeps [of fmt c z e c] by simp_all
  consider "snd (getOffsetMinutes fmt c y) = c"
    | v where "cache_get c y = None"
        "getOffsetMinutes fmt c y = (Inr (Number (Num v)), c(y \<mapsto> v))"
    using getOffsetMinutes_shape [of fmt c y] by blast
  then show ?thesis
  proof cases
    case 1
    with assms show ?thesis by simp
  next
    case 2
    have "z \<noteq> y"
    proof
      assume "z = y"
      with 2 z show False by (simp add: getOffsetMinutes_throws)
    qed
    then have "cache_get (c(y \<mapsto> v)) z = None" using z(1) by (simp add: cache_get_upd_other)
    then show ?thesis using 2(2) z(2) Inl by (simp add: getOffsetMinutes_throws)
  qed
qed

lemma convertTime_idem:
  assumes "convertTime fmt c t A B = (x, c')"
  shows "convertTime fmt c' t A B = (x, c')"
proof (cases "A = B \<or> \<not> time_re_test t")
  case True
  with assms show ?thesis by (auto simp: convertTime_guard)
next
  case False
  have x: "fst (convertTime fmt c' t A B) = x"
    using convertTime_fst_cong [OF convertTime_offsets, of fmt c t A B t A B] assms by simp
  obtain r1 c1 where g1: "getOffsetMinutes fmt c A = (r1, c1)" by (cases "getOffsetMinutes fmt c A")
  note i1 = getOffsetMinutes_idem [OF g1]
  have sc: "c' = snd (convertTime fmt c t A B)" using assms by simp
  have "snd (convertTime fmt c' t A B) = c'"
  proof (cases r1)
    case (Inl e)
    with False g1 have "c' = c1" unfolding sc by (simp add: convertTime_snd)
    with i1 Inl False show ?thesis by (simp add: convertTime_snd)
  next
    case (Inr v)
    obtain r2 c2 where g2: "getOffsetMinutes fmt c1 B = (r2, c2)"
      by (cases "getOffsetMinutes fmt c1 B")
    with Inr False g1 have c': "c' = c2" unfolding sc by (simp add: convertTime_snd)
    have "getOffsetMinutes fmt c2 A = (r1, c2)"
      using getOffsetMinutes_settled_step [OF i1, of B] g2 by simp
    moreover have "getOffsetMinutes fmt c2 B = (r2, c2)"
      using g2 by (rule getOffsetMinutes_idem)
    ultimately show ?thesis using False Inr c' by (simp add: convertTime_snd)
  qed
  with x show ?thesis by (cases "convertTime fmt c' t A B") simp
qed

lemma convertTime_settled_step:
  assumes "convertTime fmt c t A B = (x, c)" and "convertTime fmt c t2 A B = (y, c2)"
  shows "convertTime fmt c2 t A B = (x, c2)"
proof (cases "A = B \<or> \<not> time_re_test t \<or> \<not> time_re_test t2")
  case True
  then consider "A = B \<or> \<not> time_re_test t" | "A = B \<or> \<not> time_re_test t2" by blast
  then show ?thesis
  proof cases
    case 1
    with assms(1) show ?thesis by (auto simp: convertTime_guard)
  next
    case 2
    with assms(2) have "c2 = c" by (auto simp: convertTime_guard)
    with assms(1) show ?thesis by simp
  qed
next
  case False
  then have "snd (convertTime fmt c t2 A B) = snd (convertTime fmt c t A B)"
    by (simp add: convertTime_snd)
  with assms have "c2 = c" by simp
  with assms(1) show ?thesis by simp
qed

lemma update_each_settled:
  assumes "convertTime fmt c t A B = (x, c)" and "update_each fmt A B c els = (st, c1, els1)"
  shows "convertTime fmt c1 t A B = (x, c1)"
  using assms
proof (induction els arbitrary: c st c1 els1)
  case Nil
  then show ?case by simp
next
  case (Cons el els)
  obtain y c2 where s: "convertTime fmt c (baseTime el) A B = (y, c2)"
    by (cases "convertTime fmt c (baseTime el) A B")
  note k = convertTime_settled_step [OF Cons.prems(1) s]
  show ?case
  proof (cases y)
    case (Inl e)
    with Cons.prems(2) s have "c1 = c2" by simp
    with k show ?thesis by simp
  next
    case (Inr r)
    obtain st' c3 els3 where u: "update_each fmt A B c2 els = (st', c3, els3)"
      by (cases "update_each fmt A B c2 els")
    with Cons.prems(2) s Inr have "c1 = c3" by simp
    with Cons.IH [OF k u] show ?thesis by simp
  qed
qed

lemma update_each_idem:
  assumes "update_each fmt A B c els = (st, c1, els1)"
  shows "update_each fmt A B c1 els1 = (st, c1, els1)"
  using assms
proof (induction els arbitrary: c st c1 els1)
  case Nil
  then show ?case by simp
next
  case (Cons el els)
  obtain x c2 where s: "convertTime fmt c (baseTime el) A B = (x, c2)"
    by (cases "convertTime fmt c (baseTime el) A B")
  note i = convertTime_idem [OF s]
  show ?case
  proof (cases x)
    case (Inl e)
    with Cons.prems s have "st = Some e" "c1 = c2" "els1 = el # els" by simp_all
    with i Inl show ?thesis by simp
  next
    case (Inr r)
    obtain st' c3 els3 where u: "update_each fmt A B c2 els = (st', c3, els3)"
      by (cases "update_each fmt A B c2 els")
    with Cons.prems s Inr have e: "st = st'" "c1 = c3" "els1 = rewrite el r # els3" by simp_all
    have "convertTime fmt c3 (baseTime el) A B = (Inr r, c3)"
      using update_each_settled [OF i u] Inr by simp
    moreover have "update_each fmt A B c3 els3 = (st', c3, els3)"
      using Cons.IH [OF u] .
    ultimately show ?thesis using e by simp
  qed
qed

lemma demo_pass:
  "fst (updateAllTimes demo_host demo_page) = None"
  "document (snd (updateAllTimes demo_host demo_page)) =
     [\<lparr>baseTime = ''09:00'', notePrefix = None,
       childNodes = [TextNode ''20:00'', Badge ''-1'']\<rparr>,
      \<lparr>baseTime = ''23:30'', notePrefix = Some ''Boss '',
       childNodes = [TextNode ''Boss 10:30'']\<rparr>,
      \<lparr>baseTime = time_tbd, notePrefix = None, childNodes = [TextNode time_tbd]\<rparr>]"
  by code_simp+

section \<open>The offset resolver\<close>

text \<open>
  The formula. Let the host accept the zone \<open>tz\<close> and yield the local hour \<open>H\<close> and minute
  \<open>M\<close> of the reference instant. In every cache state that the page reaches from the empty
  cache of the page load, \<^verbatim>\<open>getOffsetMinutes(tz)\<close> returns \<open>12 * 60 - (H' * 60 + M)\<close>, where
  \<open>H'\<close> is 0 when \<open>H = 24\<close> and \<open>H\<close> otherwise. A zone at 07:00 (UTC-5) gets +300, a zone
  at 20:00 (UTC+8) gets -480.
\<close>

lemma getOffsetMinutes_formula:
  assumes "well_formed_host fmt" and "fmt tz = Inr (H, M)"
  shows "offset fmt (after_calls fmt Map.empty tzs) tz =
           Inr (Number (Num (12 * 60 - ((if H = 24 then 0 else H) * 60 + M)))) \<and>
         (H = 7 \<and> M = 0 \<longrightarrow>
            offset fmt (after_calls fmt Map.empty tzs) tz = Inr (Number (Num 300))) \<and>
         (H = 20 \<and> M = 0 \<longrightarrow>
            offset fmt (after_calls fmt Map.empty tzs) tz = Inr (Number (Num (- 480))))"
proof -
  have "tz \<notin> set Object_prototype_keys"
    using assms by (auto simp: well_formed_host_def)
  then have "cache_get Map.empty tz = None" by (simp add: cache_get_def)
  then have "offset fmt Map.empty tz =
           Inr (Number (Num (12 * 60 - ((if H = 24 then 0 else H) * 60 + M))))"
    using assms(2) by (simp add: offset_def getOffsetMinutes_computes)
  then have "offset fmt (after_calls fmt Map.empty tzs) tz =
           Inr (Number (Num (12 * 60 - ((if H = 24 then 0 else H) * 60 + M))))"
    by (simp only: after_calls_offset)
  then show ?thesis by simp
qed

lemma getOffsetMinutes_formula_example:
  "well_formed_host demo_host \<and>
   demo_host ''America/New_York'' = Inr (7, 0) \<and>
   offset demo_host (after_calls demo_host Map.empty [''Asia/Taipei'', ''UTC'']) ''America/New_York'' =
     Inr (Number (Num 300)) \<and>
   demo_host ''Pacific/Fiji'' = Inr (24, 0) \<and>
   offset demo_host (after_calls demo_host Map.empty []) ''Pacific/Fiji'' = Inr (Number (Num 720))"
proof -
  have h1: "well_formed_host demo_host" by (rule well_formed_demo_host)
  have h2: "demo_host ''America/New_York'' = Inr (7, 0)" by (simp add: demo_host_def)
  have h3: "demo_host ''Pacific/Fiji'' = Inr (24, 0)" by (simp add: demo_host_def)
  from getOffsetMinutes_formula [OF h1 h2, of "[''Asia/Taipei'', ''UTC'']"]
  have a: "offset demo_host (after_calls demo_host Map.empty [''Asia/Taipei'', ''UTC''])
             ''America/New_York'' = Inr (Number (Num 300))"
    by blast
  from getOffsetMinutes_formula [OF h1 h3, of "[]"]
  have b: "offset demo_host (after_calls demo_host Map.empty []) ''Pacific/Fiji'' =
             Inr (Number (Num 720))"
    by simp
  from h1 h2 h3 a b show ?thesis by blast
qed

text \<open>
  The sign. The formula reads the clock and never the date. Where the local day is the
  UTC day of the reference instant (from 12 hours behind UTC to less than 12 hours ahead),
  the result is \<open>- east\<close>, as the doc comment promises: positive behind UTC, negative ahead.
  From 12 hours ahead on, the clock shows the first hours of the next day and the result
  is \<open>1440 - east\<close>: positive, for a zone ahead of UTC, and a day away from the promise.
\<close>

lemma offset_of_clock:
  assumes "well_formed_host fmt" and "fmt tz = Inr (H, M)"
  shows "offset fmt (after_calls fmt Map.empty tzs) tz =
           Inr (Number (Num (12 * 60 - ((if H = 24 then 0 else H) * 60 + M))))"
  using getOffsetMinutes_formula [OF assms] by blast

lemma offset_same_day:
  assumes "well_formed_host fmt" and "fmt tz = Inr (local_clock east)"
    and "- 720 \<le> east" and "east < 720"
  shows "offset fmt (after_calls fmt Map.empty tzs) tz = Inr (Number (Num (- east)))"
proof -
  define t where "t = 720 + east"
  have t: "0 \<le> t" "t < 1440" using assms(3,4) by (simp_all add: t_def)
  then have m: "t mod 1440 = t" by simp
  have "t div 60 < 24" using t by simp
  then have h: "t div 60 \<noteq> 24" by simp
  have "fmt tz = Inr (t div 60, t mod 60)"
    using assms(2) by (simp add: local_clock_def t_def [symmetric] m)
  from offset_of_clock [OF assms(1) this, of tzs] h
  have "offset fmt (after_calls fmt Map.empty tzs) tz =
          Inr (Number (Num (720 - (t div 60 * 60 + t mod 60))))"
    by simp
  moreover have "t div 60 * 60 + t mod 60 = t" by simp
  ultimately show ?thesis by (simp add: t_def)
qed

lemma offset_next_day:
  assumes "well_formed_host fmt" and "fmt tz = Inr (local_clock east)"
    and "720 \<le> east" and "east \<le> 840"
  shows "offset fmt (after_calls fmt Map.empty tzs) tz = Inr (Number (Num (1440 - east)))"
    and "0 < 1440 - east"
proof -
  define t where "t = east - 720"
  have t: "0 \<le> t" "t < 1440" using assms(3,4) by (simp_all add: t_def)
  have "(720 + east) mod 1440 = (t + 1 * 1440) mod 1440" by (simp add: t_def)
  also have "\<dots> = t" using t by (simp del: mult_1)
  finally have m: "(720 + east) mod 1440 = t" .
  have "t div 60 < 24" using t by simp
  then have h: "t div 60 \<noteq> 24" by simp
  have "fmt tz = Inr (t div 60, t mod 60)"
    using assms(2) by (simp add: local_clock_def m)
  from offset_of_clock [OF assms(1) this, of tzs] h
  have "offset fmt (after_calls fmt Map.empty tzs) tz =
          Inr (Number (Num (720 - (t div 60 * 60 + t mod 60))))"
    by simp
  moreover have "t div 60 * 60 + t mod 60 = t" by simp
  ultimately show "offset fmt (after_calls fmt Map.empty tzs) tz = Inr (Number (Num (1440 - east)))"
    by (simp add: t_def)
  show "0 < 1440 - east" using assms(4) by simp
qed

text \<open>
  C2. The formula holds (lemma \<open>getOffsetMinutes_formula\<close>), and so does the sign for the
  zones of the same day (lemma \<open>offset_same_day\<close>). The sign that the claim and the doc
  comment state for every zone ahead of UTC fails from UTC+12 on: Pacific/Auckland, 780
  minutes ahead, gets +660 and Pacific/Fiji gets +720, where Asia/Taipei gets -480. The
  day offset of a conversion is then one day off: 09:00 in Asia/Taipei is 14:00 of the
  same day in Pacific/Auckland, and \<^verbatim>\<open>convertTime\<close> returns 14:00 with \<open>dayOffset = -1\<close>.
\<close>

theorem offset_sign_past_the_date_line:
  "demo_host ''Pacific/Auckland'' = Inr (local_clock 780) \<and>
   offset demo_host Map.empty ''Pacific/Auckland'' = Inr (Number (Num 660)) \<and>
   demo_host ''Pacific/Fiji'' = Inr (24, 0) \<and>
   offset demo_host Map.empty ''Pacific/Fiji'' = Inr (Number (Num 720)) \<and>
   demo_host ''Asia/Taipei'' = Inr (local_clock 480) \<and>
   offset demo_host Map.empty ''Asia/Taipei'' = Inr (Number (Num (- 480))) \<and>
   fst (convertTime demo_host Map.empty ''09:00'' ''Asia/Taipei'' ''Pacific/Auckland'') =
     Inr \<lparr>display = ''14:00'', dayOffset = Num (- 1)\<rparr>"
  by code_simp

text \<open>
  C6. A call of \<^verbatim>\<open>getOffsetMinutes(tz)\<close> that returns a value leaves the cache in a state
  where reading \<open>tz\<close> gives that value; unless \<open>tz\<close> is an inherited name, the value is a
  number and an own entry of the cache. In every state that the page reaches afterwards,
  a call for \<open>tz\<close> returns the same value and leaves the cache as it is, whatever the host
  would compute. No call changes an entry that exists, and \<^verbatim>\<open>convertTime\<close> and
  \<^verbatim>\<open>updateAllTimes\<close> change the cache through such calls only.
\<close>

theorem offset_memoized:
  assumes "getOffsetMinutes fmt c tz = (Inr v, c1)"
  shows "cache_get c1 tz = Some v \<and>
         (tz \<notin> set Object_prototype_keys \<longrightarrow> (\<exists>n. v = Number (Num n) \<and> c1 tz = Some n)) \<and>
         (\<forall>tzs fmt'. getOffsetMinutes fmt' (after_calls fmt c1 tzs) tz =
                       (Inr v, after_calls fmt c1 tzs)) \<and>
         (\<forall>tzs k x. c k = Some x \<longrightarrow> after_calls fmt c tzs k = Some x) \<and>
         (\<forall>t A B. \<exists>tzs. snd (convertTime fmt c t A B) = after_calls fmt c tzs) \<and>
         (\<forall>p. \<exists>tzs. tzOffsetCache (snd (updateAllTimes fmt p)) =
                       after_calls fmt (tzOffsetCache p) tzs)"
proof -
  have s: "cache_get c1 tz = Some v" using assms by (rule getOffsetMinutes_stores)
  have m: "getOffsetMinutes fmt' (after_calls fmt c1 tzs) tz = (Inr v, after_calls fmt c1 tzs)"
    for tzs fmt'
    using after_calls_keeps_read [OF s] by (rule getOffsetMinutes_cached)
  show ?thesis
  proof (intro conjI allI impI)
    show "cache_get c1 tz = Some v" by (rule s)
    show "\<exists>n. v = Number (Num n) \<and> c1 tz = Some n" if "tz \<notin> set Object_prototype_keys"
      using s that by (auto simp: cache_get_def split: option.splits)
    show "getOffsetMinutes fmt' (after_calls fmt c1 tzs) tz = (Inr v, after_calls fmt c1 tzs)"
      for tzs fmt' by (rule m)
    show "after_calls fmt c tzs k = Some x" if "c k = Some x" for tzs k x
      using that by (rule after_calls_keeps_entry)
    show "\<exists>tzs. snd (convertTime fmt c t A B) = after_calls fmt c tzs" for t A B
      by (rule convertTime_after_calls)
    show "\<exists>tzs. tzOffsetCache (snd (updateAllTimes fmt p)) = after_calls fmt (tzOffsetCache p) tzs"
      for p by (rule updateAllTimes_after_calls)
  qed
qed

theorem offset_memoized_witness:
  "getOffsetMinutes demo_host Map.empty ''Asia/Taipei'' =
     (Inr (Number (Num (- 480))), [''Asia/Taipei'' \<mapsto> - 480]) \<and>
   cache_get [''Asia/Taipei'' \<mapsto> - 480] ''Asia/Taipei'' = Some (Number (Num (- 480))) \<and>
   ''Asia/Taipei'' \<notin> set Object_prototype_keys \<and>
   getOffsetMinutes (\<lambda>tz. Inl RangeError)
       (after_calls demo_host [''Asia/Taipei'' \<mapsto> - 480] [''UTC'']) ''Asia/Taipei'' =
     (Inr (Number (Num (- 480))), after_calls demo_host [''Asia/Taipei'' \<mapsto> - 480] [''UTC''])"
proof -
  have n: "cache_get Map.empty ''Asia/Taipei'' = None"
    by (simp add: cache_get_def Object_prototype_keys_def)
  have d: "demo_host ''Asia/Taipei'' = Inr (20, 0)" by (simp add: demo_host_def)
  have h: "getOffsetMinutes demo_host Map.empty ''Asia/Taipei'' =
     (Inr (Number (Num (- 480))), [''Asia/Taipei'' \<mapsto> - 480])"
    using getOffsetMinutes_computes [of Map.empty "''Asia/Taipei''" demo_host 20 0] n d by simp
  have k: "''Asia/Taipei'' \<notin> set Object_prototype_keys"
    by (simp add: Object_prototype_keys_def)
  from offset_memoized [OF h] h k show ?thesis by blast
qed

text \<open>
  C7. An identifier that the host rejects should make \<^verbatim>\<open>getOffsetMinutes\<close> throw. The lemmas
  \<open>offset_throws\<close>, \<open>convertTime_propagates_from\<close>, \<open>convertTime_propagates_to\<close> and
  \<open>update_each_propagates\<close> show that it does, and that nothing catches the exception, for
  every identifier that the cache does not answer. The name of an inherited member is
  answered by the cache object itself: the host is never asked, nothing is thrown, and
  the conversion displays \<^verbatim>\<open>NaN:NaN\<close>.
\<close>

theorem inherited_name_is_not_rejected:
  "demo_host ''constructor'' = Inl RangeError \<and>
   fst (getOffsetMinutes demo_host Map.empty ''constructor'') = Inr (Inherited ''constructor'') \<and>
   fst (convertTime demo_host Map.empty ''09:00'' ''Asia/Taipei'' ''constructor'') =
     Inr \<lparr>display = ''NaN:NaN'', dayOffset = NaN\<rparr> \<and>
   fst (convertTime demo_host Map.empty ''09:00'' ''Asia/Taipei'' ''Mars/Olympus'') = Inl RangeError \<and>
   fst (updateAllTimes demo_host (demo_page\<lparr>currentTimezone := ''constructor''\<rparr>)) = None \<and>
   map childNodes
     (document (snd (updateAllTimes demo_host (demo_page\<lparr>currentTimezone := ''constructor''\<rparr>)))) =
     [[TextNode ''NaN:NaN'', Badge ''-1''], [TextNode ''Boss NaN:NaN'', Badge ''-1''],
      [TextNode time_tbd]]"
  by code_simp

section \<open>The time converter\<close>

text \<open>
  C1. For a time string that matches the pattern, with parsed hour \<open>h\<close> and minute \<open>m\<close>,
  and two distinct zones whose offsets resolve to the numbers \<open>oF\<close> and \<open>oT\<close>,
  \<^verbatim>\<open>convertTime\<close> returns \<open>dayOffset = raw div 1440\<close> (the floor of the quotient) for
  \<open>raw = h * 60 + m + oF - oT\<close>, and the display is the two-digit hour and minute of
  \<open>normalized = ((raw % 1440) + 1440) % 1440\<close>, which lies in \<open>[0, 1440)\<close> and is \<open>raw mod 1440\<close>.
  With \<open>oF = -480\<close>, \<open>oT = 300\<close> and the input 09:00 the result is 20:00 with \<open>dayOffset = -1\<close>.
\<close>

theorem convertTime_arithmetic:
  fixes h m oF oT :: int
  defines "raw \<equiv> h * 60 + m + oF - oT"
  defines "normalized \<equiv> ((raw smod 1440) + 1440) smod 1440"
  assumes "time_re_test timeStr"
    and "map js_Number (split_on (CHR '':'') timeStr) = [Num h, Num m]"
    and "fromTz \<noteq> toTz"
    and "offset fmt c fromTz = Inr (Number (Num oF))"
    and "offset fmt c toTz = Inr (Number (Num oT))"
  shows "fst (convertTime fmt c timeStr fromTz toTz) =
           Inr \<lparr>display = padStart (js_String (Num (normalized div 60))) 2 @ '':'' @
                           padStart (js_String (Num (normalized mod 60))) 2,
                dayOffset = Num (raw div 1440)\<rparr> \<and>
         raw div 1440 = \<lfloor>real_of_int raw / 1440\<rfloor> \<and>
         0 \<le> normalized \<and> normalized < 1440 \<and> normalized = raw mod 1440 \<and>
         (timeStr = ''09:00'' \<and> oF = - 480 \<and> oT = 300 \<longrightarrow>
            fst (convertTime fmt c timeStr fromTz toTz) =
              Inr \<lparr>display = ''20:00'', dayOffset = Num (- 1)\<rparr>)"
proof -
  have n: "normalized = raw mod 1440" by (simp add: normalized_def normalized_eq)
  have main: "fst (convertTime fmt c timeStr fromTz toTz) =
           Inr \<lparr>display = padStart (js_String (Num (normalized div 60))) 2 @ '':'' @
                           padStart (js_String (Num (normalized mod 60))) 2,
                dayOffset = Num (raw div 1440)\<rparr>"
    using assms(3,5-7) conversion_of_numeric [OF assms(4), of oF oT]
    by (simp add: convertTime_fst n raw_def)
  have special: "fst (convertTime fmt c timeStr fromTz toTz) =
              Inr \<lparr>display = ''20:00'', dayOffset = Num (- 1)\<rparr>"
    if "timeStr = ''09:00''" "oF = - 480" "oT = 300"
  proof -
    have "map js_Number (split_on (CHR '':'') ''09:00'') = [Num 9, Num 0]" by code_simp
    with assms(4) that have "h = 9" "m = 0" by simp_all
    with that have "raw = - 240" by (simp add: raw_def)
    then have "normalized = 1200" "raw div 1440 = - 1" by (simp_all add: n)
    moreover have "padStart (js_String (Num 20)) 2 = ''20''" "padStart (js_String (Num 0)) 2 = ''00''"
      by code_simp+
    ultimately show ?thesis using main by simp
  qed
  have fl: "raw div 1440 = \<lfloor>real_of_int raw / 1440\<rfloor>"
    using div_is_floor [of raw 1440] by simp
  show ?thesis using main n special fl by simp
qed

theorem convertTime_arithmetic_witness:
  "time_re_test ''09:00'' \<and>
   map js_Number (split_on (CHR '':'') ''09:00'') = [Num 9, Num 0] \<and>
   ''Asia/Taipei'' \<noteq> ''America/New_York'' \<and>
   offset demo_host Map.empty ''Asia/Taipei'' = Inr (Number (Num (- 480))) \<and>
   offset demo_host Map.empty ''America/New_York'' = Inr (Number (Num 300)) \<and>
   fst (convertTime demo_host Map.empty ''09:00'' ''Asia/Taipei'' ''America/New_York'') =
     Inr \<lparr>display = ''20:00'', dayOffset = Num (- 1)\<rparr>"
proof -
  have h1: "time_re_test ''09:00''" by code_simp
  have h2: "map js_Number (split_on (CHR '':'') ''09:00'') = [Num 9, Num 0]" by code_simp
  have h3: "''Asia/Taipei'' \<noteq> ''America/New_York''" by simp
  have h4: "offset demo_host Map.empty ''Asia/Taipei'' = Inr (Number (Num (- 480)))" by code_simp
  have h5: "offset demo_host Map.empty ''America/New_York'' = Inr (Number (Num 300))" by code_simp
  from convertTime_arithmetic [OF h1 h2 h3 h4 h5]
  have "fst (convertTime demo_host Map.empty ''09:00'' ''Asia/Taipei'' ''America/New_York'') =
          Inr \<lparr>display = ''20:00'', dayOffset = Num (- 1)\<rparr>"
    by blast
  with h1 h2 h3 h4 h5 show ?thesis by blast
qed

text \<open>
  C4. When the two zone identifiers are equal, or the string does not match the pattern,
  \<^verbatim>\<open>convertTime\<close> returns the string unchanged with \<open>dayOffset = 0\<close>; it does not touch
  the cache.
\<close>

theorem convertTime_pass_through:
  assumes "fromTz = toTz \<or> \<not> time_re_test timeStr"
  shows "convertTime fmt c timeStr fromTz toTz = (Inr \<lparr>display = timeStr, dayOffset = Num 0\<rparr>, c)"
  using assms by (rule convertTime_guard)

theorem convertTime_pass_through_witness:
  "\<not> time_re_test time_tbd \<and>
   convertTime demo_host Map.empty time_tbd ''Asia/Taipei'' ''America/New_York'' =
     (Inr \<lparr>display = time_tbd, dayOffset = Num 0\<rparr>, Map.empty) \<and>
   convertTime demo_host Map.empty ''14:15'' ''Asia/Taipei'' ''Asia/Taipei'' =
     (Inr \<lparr>display = ''14:15'', dayOffset = Num 0\<rparr>, Map.empty)"
proof -
  have h: "\<not> time_re_test time_tbd" by code_simp
  from convertTime_pass_through [of "''Asia/Taipei''" "''America/New_York''" time_tbd demo_host Map.empty]
       convertTime_pass_through [of "''Asia/Taipei''" "''Asia/Taipei''" "''14:15''" demo_host Map.empty]
       h
  show ?thesis by simp
qed

text \<open>
  C5. For a matching time string and two distinct zones with resolved offsets, the display
  is exactly five characters: two digits of the hour \<open>normalized div 60\<close>, a colon, two
  digits of the minute \<open>normalized mod 60\<close>. The hour is at most 23 and the minute at
  most 59, whether the input hour had one digit or two, and reading the display back
  gives that hour and minute.
\<close>

theorem display_format:
  fixes h m oF oT :: int
  defines "normalized \<equiv> (((h * 60 + m + oF - oT) smod 1440) + 1440) smod 1440"
  defines "H \<equiv> nat (normalized div 60)" and "M \<equiv> nat (normalized mod 60)"
  assumes "time_re_test timeStr"
    and "map js_Number (split_on (CHR '':'') timeStr) = [Num h, Num m]"
    and "fromTz \<noteq> toTz"
    and "offset fmt c fromTz = Inr (Number (Num oF))"
    and "offset fmt c toTz = Inr (Number (Num oT))"
  shows "\<exists>r. fst (convertTime fmt c timeStr fromTz toTz) = Inr r \<and>
           display r = [digit_char (H div 10), digit_char (H mod 10), CHR '':'',
                        digit_char (M div 10), digit_char (M mod 10)] \<and>
           is_digit (digit_char (H div 10)) \<and> is_digit (digit_char (H mod 10)) \<and>
           is_digit (digit_char (M div 10)) \<and> is_digit (digit_char (M mod 10)) \<and>
           H \<le> 23 \<and> M \<le> 59 \<and>
           map js_Number (split_on (CHR '':'') (display r)) = [Num (int H), Num (int M)]"
proof -
  have n: "normalized = (h * 60 + m + oF - oT) mod 1440"
    by (simp add: normalized_def normalized_eq)
  then have r: "0 \<le> normalized" "normalized < 1440" by simp_all
  note fmt = display_two_digit [OF r, folded H_def M_def]
  have "fst (convertTime fmt c timeStr fromTz toTz) =
          Inr \<lparr>display = [digit_char (H div 10), digit_char (H mod 10), CHR '':'',
                           digit_char (M div 10), digit_char (M mod 10)],
               dayOffset = Num ((h * 60 + m + oF - oT) div 1440)\<rparr>"
    using assms(4,6-8) conversion_of_numeric [OF assms(5), of oF oT] fmt(1)
    by (simp add: convertTime_fst n)
  moreover have "H \<le> 99" "M \<le> 99" using fmt(2,3) by simp_all
  moreover have "H div 10 < 10" "H mod 10 < 10" "M div 10 < 10" "M mod 10 < 10"
    using fmt(2,3) by simp_all
  ultimately show ?thesis
    using fmt(2,3) two_digit_time(2) [of H M]
    by (simp add: is_digit_digit_char)
qed

theorem display_format_witness:
  "time_re_test ''9:05'' \<and>
   map js_Number (split_on (CHR '':'') ''9:05'') = [Num 9, Num 5] \<and>
   ''Asia/Taipei'' \<noteq> ''UTC'' \<and>
   offset demo_host Map.empty ''Asia/Taipei'' = Inr (Number (Num (- 480))) \<and>
   offset demo_host Map.empty ''UTC'' = Inr (Number (Num 0)) \<and>
   (\<exists>r. fst (convertTime demo_host Map.empty ''9:05'' ''Asia/Taipei'' ''UTC'') = Inr r \<and>
        display r = ''01:05'')"
proof -
  have h1: "time_re_test ''9:05''" by code_simp
  have h2: "map js_Number (split_on (CHR '':'') ''9:05'') = [Num 9, Num 5]" by code_simp
  have h3: "''Asia/Taipei'' \<noteq> ''UTC''" by simp
  have h4: "offset demo_host Map.empty ''Asia/Taipei'' = Inr (Number (Num (- 480)))" by code_simp
  have h5: "offset demo_host Map.empty ''UTC'' = Inr (Number (Num 0))" by code_simp
  have d: "digit_char 0 = CHR ''0''" "digit_char (Suc 0) = CHR ''1''" "digit_char 5 = CHR ''5''"
    by code_simp+
  have n: "(((9 * 60 + 5 + (- 480) - 0) smod 1440) + 1440) smod 1440 = (65::int)"
    by (simp add: normalized_eq)
  from display_format [OF h1 h2 h3 h4 h5] h1 h2 h3 h4 h5 show ?thesis
    unfolding n by (auto simp: d)
qed

text \<open>
  C10. A two-digit hour from 24 to 99 matches the pattern, and \<^verbatim>\<open>convertTime\<close> treats it as
  any other: the result is a conversion, with the same arithmetic, and the hours beyond 23
  go into \<open>dayOffset\<close>. Between two distinct zones of equal offset, 25:30 becomes 01:30
  with \<open>dayOffset = 1\<close>.
\<close>

theorem oversized_hour:
  fixes oF oT :: int and a b m1 m2 :: char
  defines "h \<equiv> 10 * digit_val a + digit_val b" and "m \<equiv> 10 * digit_val m1 + digit_val m2"
  defines "raw \<equiv> h * 60 + m + oF - oT"
  assumes "timeStr = [a, b, CHR '':'', m1, m2]"
    and "is_digit a" "is_digit b" "is_digit m1" "is_digit m2"
    and "24 \<le> h"
    and "fromTz \<noteq> toTz"
    and "offset fmt c fromTz = Inr (Number (Num oF))"
    and "offset fmt c toTz = Inr (Number (Num oT))"
  shows "time_re_test timeStr \<and> h \<le> 99 \<and>
         fst (convertTime fmt c timeStr fromTz toTz) =
           Inr \<lparr>display = padStart (js_String (Num (raw mod 1440 div 60))) 2 @ '':'' @
                           padStart (js_String (Num (raw mod 1440 mod 60))) 2,
                dayOffset = Num (raw div 1440)\<rparr> \<and>
         (timeStr = ''25:30'' \<and> oF = oT \<longrightarrow>
            fst (convertTime fmt c timeStr fromTz toTz) =
              Inr \<lparr>display = ''01:30'', dayOffset = Num 1\<rparr>)"
proof -
  have t: "time_re_test timeStr"
    unfolding time_re_test_iff using assms(4-8) by simp
  have p: "map js_Number (split_on (CHR '':'') timeStr) = [Num h, Num m]"
    unfolding assms(4) h_def m_def by (rule split_long) fact+
  have "h \<le> 99" using digit_val_range [OF assms(5)] digit_val_range [OF assms(6)]
    by (simp add: h_def)
  moreover
  have main: "fst (convertTime fmt c timeStr fromTz toTz) =
           Inr \<lparr>display = padStart (js_String (Num (raw mod 1440 div 60))) 2 @ '':'' @
                           padStart (js_String (Num (raw mod 1440 mod 60))) 2,
                dayOffset = Num (raw div 1440)\<rparr>"
    using t assms(10-12) conversion_of_numeric [OF p, of oF oT]
    by (simp add: convertTime_fst raw_def)
  moreover
  have "fst (convertTime fmt c timeStr fromTz toTz) =
              Inr \<lparr>display = ''01:30'', dayOffset = Num 1\<rparr>"
    if "timeStr = ''25:30''" "oF = oT"
  proof -
    have "map js_Number (split_on (CHR '':'') ''25:30'') = [Num 25, Num 30]" by code_simp
    with p that have "h = 25" "m = 30" by simp_all
    with that have "raw = 1530" by (simp add: raw_def)
    then have "raw mod 1440 div 60 = 1" "raw mod 1440 mod 60 = 30" "raw div 1440 = 1"
      by simp_all
    moreover have "padStart (js_String (Num 1)) 2 = ''01''" "padStart (js_String (Num 30)) 2 = ''30''"
      by code_simp+
    ultimately show ?thesis using main by simp
  qed
  ultimately show ?thesis using t by blast
qed

theorem oversized_hour_witness:
  "''25:30'' = [CHR ''2'', CHR ''5'', CHR '':'', CHR ''3'', CHR ''0''] \<and>
   is_digit (CHR ''2'') \<and> is_digit (CHR ''5'') \<and> is_digit (CHR ''3'') \<and> is_digit (CHR ''0'') \<and>
   (24::int) \<le> 10 * digit_val (CHR ''2'') + digit_val (CHR ''5'') \<and>
   ''Asia/Taipei'' \<noteq> ''Asia/Shanghai'' \<and>
   offset demo_host Map.empty ''Asia/Taipei'' = Inr (Number (Num (- 480))) \<and>
   offset demo_host Map.empty ''Asia/Shanghai'' = Inr (Number (Num (- 480))) \<and>
   fst (convertTime demo_host Map.empty ''25:30'' ''Asia/Taipei'' ''Asia/Shanghai'') =
     Inr \<lparr>display = ''01:30'', dayOffset = Num 1\<rparr>"
proof -
  have h1: "''25:30'' = [CHR ''2'', CHR ''5'', CHR '':'', CHR ''3'', CHR ''0'']" by simp
  have h2: "is_digit (CHR ''2'')" "is_digit (CHR ''5'')" "is_digit (CHR ''3'')" "is_digit (CHR ''0'')"
    by code_simp+
  have h3: "(24::int) \<le> 10 * digit_val (CHR ''2'') + digit_val (CHR ''5'')" by code_simp
  have h4: "''Asia/Taipei'' \<noteq> ''Asia/Shanghai''" by simp
  have h5: "offset demo_host Map.empty ''Asia/Taipei'' = Inr (Number (Num (- 480)))" by code_simp
  have h6: "offset demo_host Map.empty ''Asia/Shanghai'' = Inr (Number (Num (- 480)))" by code_simp
  from oversized_hour [OF h1 h2 h3 h4 h5 h6]
  have "fst (convertTime demo_host Map.empty ''25:30'' ''Asia/Taipei'' ''Asia/Shanghai'') =
     Inr \<lparr>display = ''01:30'', dayOffset = Num 1\<rparr>"
    by blast
  with h1 h2 h3 h4 h5 h6 show ?thesis by blast
qed

text \<open>
  C3, as stated, fails: the pattern admits hours up to 99 and minutes up to 99, and the
  conversion folds them into the day. From Asia/Taipei to Asia/Shanghai 25:30 becomes
  01:30 with \<open>dayOffset = 1\<close>; the way back gives 01:30 with \<open>dayOffset = 0\<close>.
\<close>

theorem round_trip_counterexample:
  "time_re_test ''25:30'' \<and>
   offset demo_host Map.empty ''Asia/Taipei'' = Inr (Number (Num (- 480))) \<and>
   offset demo_host Map.empty ''Asia/Shanghai'' = Inr (Number (Num (- 480))) \<and>
   fst (convertTime demo_host Map.empty ''25:30'' ''Asia/Taipei'' ''Asia/Shanghai'') =
     Inr \<lparr>display = ''01:30'', dayOffset = Num 1\<rparr> \<and>
   fst (convertTime demo_host
          (snd (convertTime demo_host Map.empty ''25:30'' ''Asia/Taipei'' ''Asia/Shanghai''))
          ''01:30'' ''Asia/Shanghai'' ''Asia/Taipei'') =
     Inr \<lparr>display = ''01:30'', dayOffset = Num 0\<rparr> \<and>
   map js_Number (split_on (CHR '':'') ''01:30'') \<noteq> map js_Number (split_on (CHR '':'') ''25:30'') \<and>
   num_add (Num 1) (Num 0) \<noteq> Num 0"
  by code_simp

text \<open>
  C3, amended. For a matching time string with hour at most 23 and minute at most 59, and
  two zones whose offsets resolve to numbers, converting from \<open>A\<close> to \<open>B\<close> and the display
  back from \<open>B\<close> to \<open>A\<close> gives the hour and minute of the input, and the two day offsets
  add up to 0.
\<close>

theorem round_trip:
  fixes h m oA oB :: int
  assumes "time_re_test t"
    and "map js_Number (split_on (CHR '':'') t) = [Num h, Num m]"
    and "h \<le> 23" and "m \<le> 59"
    and "offset fmt c A = Inr (Number (Num oA))"
    and "offset fmt c B = Inr (Number (Num oB))"
  shows "\<exists>r1 c1 r2 c2.
           convertTime fmt c t A B = (Inr r1, c1) \<and>
           convertTime fmt c1 (display r1) B A = (Inr r2, c2) \<and>
           map js_Number (split_on (CHR '':'') (display r2)) = [Num h, Num m] \<and>
           num_add (dayOffset r1) (dayOffset r2) = Num 0"
proof (cases "A = B")
  case True
  then show ?thesis using assms(2) by (simp add: convertTime_guard)
next
  case False
  obtain x1 c1 where f: "convertTime fmt c t A B = (x1, c1)" by (cases "convertTime fmt c t A B")
  obtain x2 c2 where b: "convertTime fmt c1 (display (projr x1)) B A = (x2, c2)"
    by (cases "convertTime fmt c1 (display (projr x1)) B A")
  from split_time [OF assms(1)] assms(2) have hm: "0 \<le> h" "0 \<le> m" by auto
  define raw where "raw = h * 60 + m + oA - oB"
  define n where "n = raw mod 1440"
  define H where "H = nat (n div 60)"
  define M where "M = nat (n mod 60)"
  have r: "0 \<le> n" "n < 1440" by (simp_all add: n_def)
  note fm = display_two_digit [OF r, folded H_def M_def]
  have HM: "H \<le> 99" "M \<le> 99" using fm(2,3) by simp_all
  have x1: "x1 = Inr \<lparr>display = [digit_char (H div 10), digit_char (H mod 10), CHR '':'',
                           digit_char (M div 10), digit_char (M mod 10)],
                       dayOffset = Num (raw div 1440)\<rparr>"
    using f False assms(1,5,6) conversion_of_numeric [OF assms(2), of oA oB] fm(1)
      convertTime_fst [of fmt c t A B]
    by (simp add: n_def raw_def)
  have c1: "c1 = snd (convertTime fmt c t A B)" using f by simp
  have oA': "offset fmt c1 A = Inr (Number (Num oA))"
    and oB': "offset fmt c1 B = Inr (Number (Num oB))"
    unfolding c1 convertTime_offset_stable using assms(5,6) by simp_all
  define raw2 where "raw2 = int H * 60 + int M + oB - oA"
  have "0 \<le> n div 60" using r(1) by (simp add: pos_imp_zdiv_nonneg_iff)
  then have HMn: "int H * 60 + int M = n"
    by (simp add: H_def M_def)
  have "n = raw - 1440 * (raw div 1440)"
    unfolding n_def by (simp add: minus_mult_div_eq_mod)
  then have raw2: "raw2 = (h * 60 + m) + 1440 * (- (raw div 1440))"
    by (simp add: raw2_def HMn raw_def)
  have small: "0 \<le> h * 60 + m" "h * 60 + m < 1440" using hm assms(3,4) by auto
  define k where "k = - (raw div 1440)"
  have "raw2 = (h * 60 + m) + k * 1440" using raw2 by (simp add: k_def)
  then have "raw2 div 1440 = (h * 60 + m) div 1440 + k" and "raw2 mod 1440 = (h * 60 + m) mod 1440"
    by simp_all
  then have d2: "raw2 div 1440 = - (raw div 1440)" and m2: "raw2 mod 1440 = h * 60 + m"
    using small by (simp_all add: k_def)
  have hm60: "(h * 60 + m) div 60 = h" "(h * 60 + m) mod 60 = m"
    using hm assms(4) by simp_all
  have m60: "m mod 60 = m" using hm assms(4) by simp
  have hh: "h < 100" "m < 100" using assms(3,4) by simp_all
  have x2: "x2 = Inr \<lparr>display = padStart (js_String (Num h)) 2 @ '':'' @ padStart (js_String (Num m)) 2,
                       dayOffset = Num (- (raw div 1440))\<rparr>"
    using b False two_digit_time(1) [OF HM] oA' oB'
      conversion_of_numeric [OF two_digit_time(2) [OF HM], of oB oA]
      convertTime_fst [of fmt c1 "display (projr x1)" B A]
    by (simp add: x1 raw2_def [symmetric] d2 m2 hm60 m60)
  have rd: "map js_Number (split_on (CHR '':'')
                 (padStart (js_String (Num h)) 2 @ '':'' @ padStart (js_String (Num m)) 2)) =
              [Num h, Num m]"
    using two_digit_time(2) [of "nat h" "nat m"] hm hh
    by (simp add: two_digits_int)
  show ?thesis
    using f b rd by (simp add: x1 x2)
qed

theorem round_trip_witness:
  "time_re_test ''09:00'' \<and>
   map js_Number (split_on (CHR '':'') ''09:00'') = [Num 9, Num 0] \<and>
   (9::int) \<le> 23 \<and> (0::int) \<le> 59 \<and>
   offset demo_host Map.empty ''Asia/Taipei'' = Inr (Number (Num (- 480))) \<and>
   offset demo_host Map.empty ''America/New_York'' = Inr (Number (Num 300)) \<and>
   (\<exists>r1 c1 r2 c2.
      convertTime demo_host Map.empty ''09:00'' ''Asia/Taipei'' ''America/New_York'' = (Inr r1, c1) \<and>
      convertTime demo_host c1 (display r1) ''America/New_York'' ''Asia/Taipei'' = (Inr r2, c2) \<and>
      map js_Number (split_on (CHR '':'') (display r2)) = [Num 9, Num 0] \<and>
      num_add (dayOffset r1) (dayOffset r2) = Num 0)"
proof -
  have h1: "time_re_test ''09:00''" by code_simp
  have h2: "map js_Number (split_on (CHR '':'') ''09:00'') = [Num 9, Num 0]" by code_simp
  have h3: "(9::int) \<le> 23" and h4: "(0::int) \<le> 59" by simp_all
  have h5: "offset demo_host Map.empty ''Asia/Taipei'' = Inr (Number (Num (- 480)))" by code_simp
  have h6: "offset demo_host Map.empty ''America/New_York'' = Inr (Number (Num 300))" by code_simp
  from round_trip [OF h1 h2 h3 h4 h5 h6] h1 h2 h3 h4 h5 h6 show ?thesis by blast
qed

section \<open>The selection propagator\<close>

text \<open>
  C8. Running \<^verbatim>\<open>updateAllTimes\<close> again on the page that a pass has left (same configuration,
  same selected zone) returns the same outcome and leaves the page as it is: every
  element keeps the text and the badge of the first pass, and the cache is not written.
  The outcome and the document of a pass do not depend on which offsets the cache holds
  already: they are a function of the base times, the prefixes and the two zones.
\<close>

theorem propagation_idempotent:
  "updateAllTimes fmt (snd (updateAllTimes fmt p)) = updateAllTimes fmt p \<and>
   fst (updateAllTimes fmt (p\<lparr>tzOffsetCache := after_calls fmt (tzOffsetCache p) tzs\<rparr>)) =
     fst (updateAllTimes fmt p) \<and>
   document (snd (updateAllTimes fmt (p\<lparr>tzOffsetCache := after_calls fmt (tzOffsetCache p) tzs\<rparr>))) =
     document (snd (updateAllTimes fmt p))"
proof -
  define A where "A = or_default (baseTimezone p) ''Asia/Taipei''"
  define B where "B = currentTimezone p"
  obtain st c els where u: "update_each fmt A B (tzOffsetCache p) (document p) = (st, c, els)"
    by (cases "update_each fmt A B (tzOffsetCache p) (document p)")
  then have r: "updateAllTimes fmt p = (st, p\<lparr>tzOffsetCache := c, document := els\<rparr>)"
    by (simp add: updateAllTimes_def A_def B_def)
  have "update_each fmt A B c els = (st, c, els)" using u by (rule update_each_idem)
  then have 1: "updateAllTimes fmt (snd (updateAllTimes fmt p)) = updateAllTimes fmt p"
    unfolding r by (simp add: updateAllTimes_def A_def B_def)
  have "offset fmt (after_calls fmt (tzOffsetCache p) tzs) = offset fmt (tzOffsetCache p)"
    by (rule ext) (rule after_calls_offset)
  from update_each_cong [OF this, of A B "document p"]
  have 2: "fst (updateAllTimes fmt (p\<lparr>tzOffsetCache := after_calls fmt (tzOffsetCache p) tzs\<rparr>)) =
     fst (updateAllTimes fmt p)"
    and 3: "document (snd (updateAllTimes fmt (p\<lparr>tzOffsetCache := after_calls fmt (tzOffsetCache p) tzs\<rparr>))) =
     document (snd (updateAllTimes fmt p))"
    by (auto simp: updateAllTimes_def A_def B_def split: prod.splits)
  from 1 2 3 show ?thesis by blast
qed

theorem propagation_idempotent_witness:
  "document (snd (updateAllTimes demo_host (snd (updateAllTimes demo_host demo_page)))) =
     [\<lparr>baseTime = ''09:00'', notePrefix = None,
       childNodes = [TextNode ''20:00'', Badge ''-1'']\<rparr>,
      \<lparr>baseTime = ''23:30'', notePrefix = Some ''Boss '',
       childNodes = [TextNode ''Boss 10:30'']\<rparr>,
      \<lparr>baseTime = time_tbd, notePrefix = None, childNodes = [TextNode time_tbd]\<rparr>] \<and>
   fst (updateAllTimes demo_host (snd (updateAllTimes demo_host demo_page))) = None"
  using propagation_idempotent [of demo_host demo_page "[]"] demo_pass by simp

text \<open>
  C9. In a pass that runs to its end, every element's children are replaced by one text
  node, the element's \<^verbatim>\<open>data-note-prefix\<close> (nothing when the attribute is absent) followed by
  the display of the conversion from the configuration's base zone (Asia/Taipei when it
  names none) to the selected zone, and by one badge after it exactly when \<open>dayOffset\<close> is
  not 0: \<^verbatim>\<open>+1\<close> for every positive \<open>dayOffset\<close>, \<^verbatim>\<open>-1\<close> for every negative one, whatever the
  magnitude. (The source writes the badge with the ASCII hyphen-minus. A \<open>NaN\<close> day offset
  is not equal to 0 and not greater, so it gets \<^verbatim>\<open>-1\<close> too.)
\<close>

theorem propagation_rewrites_nodes:
  assumes "fst (updateAllTimes fmt p) = None"
  shows "length (document (snd (updateAllTimes fmt p))) = length (document p) \<and>
         (\<forall>i < length (document p). \<exists>r.
            fst (convertTime fmt (tzOffsetCache p) (baseTime (document p ! i))
                   (case baseTimezone p of
                      None \<Rightarrow> ''Asia/Taipei''
                    | Some z \<Rightarrow> if z = [] then ''Asia/Taipei'' else z)
                   (currentTimezone p)) = Inr r \<and>
            childNodes (document (snd (updateAllTimes fmt p)) ! i) =
              TextNode ((case notePrefix (document p ! i) of None \<Rightarrow> [] | Some s \<Rightarrow> s) @
                        display r) #
              (case dayOffset r of
                 Num d \<Rightarrow> if d = 0 then [] else if 0 < d then [Badge ''+1''] else [Badge ''-1'']
               | NaN \<Rightarrow> [Badge ''-1'']))"
proof -
  define A where "A = or_default (baseTimezone p) ''Asia/Taipei''"
  have A: "(case baseTimezone p of None \<Rightarrow> ''Asia/Taipei''
            | Some z \<Rightarrow> if z = [] then ''Asia/Taipei'' else z) = A"
    by (simp add: A_def or_default_def)
  obtain st c els where u: "update_each fmt A (currentTimezone p) (tzOffsetCache p) (document p) = (st, c, els)"
    by (cases "update_each fmt A (currentTimezone p) (tzOffsetCache p) (document p)")
  then have r: "updateAllTimes fmt p = (st, p\<lparr>tzOffsetCache := c, document := els\<rparr>)"
    by (simp add: updateAllTimes_def A_def)
  with assms have "st = None" by simp
  with u have l: "list_all2 (\<lambda>el el'. \<exists>r. fst (convertTime fmt (tzOffsetCache p) (baseTime el) A
                                  (currentTimezone p)) = Inr r \<and> el' = rewrite el r)
                    (document p) els"
    by (simp add: update_each_nodes)
  have d: "document (snd (updateAllTimes fmt p)) = els" using r by simp
  show ?thesis
    unfolding d A
  proof (intro conjI allI impI)
    show "length els = length (document p)" using l by (simp add: list_all2_lengthD)
    fix i assume "i < length (document p)"
    with l obtain r where
      "fst (convertTime fmt (tzOffsetCache p) (baseTime (document p ! i)) A (currentTimezone p)) = Inr r"
      "els ! i = rewrite (document p ! i) r"
      by (auto simp: list_all2_conv_all_nth)
    then show "\<exists>r. fst (convertTime fmt (tzOffsetCache p) (baseTime (document p ! i)) A
                        (currentTimezone p)) = Inr r \<and>
            childNodes (els ! i) =
              TextNode ((case notePrefix (document p ! i) of None \<Rightarrow> [] | Some s \<Rightarrow> s) @
                        display r) #
              (case dayOffset r of
                 Num d \<Rightarrow> if d = 0 then [] else if 0 < d then [Badge ''+1''] else [Badge ''-1'']
               | NaN \<Rightarrow> [Badge ''-1''])"
      by (auto simp: childNodes_rewrite or_default_empty)
  qed
qed

theorem propagation_rewrites_nodes_witness:
  "fst (updateAllTimes demo_host demo_page) = None \<and>
   length (document (snd (updateAllTimes demo_host demo_page))) = 3 \<and>
   childNodes (document (snd (updateAllTimes demo_host demo_page)) ! 0) =
     [TextNode ''20:00'', Badge ''-1''] \<and>
   childNodes (document (snd (updateAllTimes demo_host demo_page)) ! 1) =
     [TextNode ''Boss 10:30''] \<and>
   childNodes (document (snd (updateAllTimes demo_host demo_page)) ! 2) =
     [TextNode time_tbd] \<and>
   fst (updateAllTimes demo_host
          (demo_page\<lparr>baseTimezone := Some ''America/New_York'',
                     currentTimezone := ''Asia/Taipei''\<rparr>)) = None \<and>
   childNodes (document (snd (updateAllTimes demo_host
          (demo_page\<lparr>baseTimezone := Some ''America/New_York'',
                     currentTimezone := ''Asia/Taipei''\<rparr>))) ! 1) =
     [TextNode ''Boss 12:30'', Badge ''+1'']"
proof -
  define q where "q = demo_page\<lparr>baseTimezone := Some ''America/New_York'',
                                  currentTimezone := ''Asia/Taipei''\<rparr>"
  have h: "fst (updateAllTimes demo_host demo_page) = None" by (rule demo_pass)
  have hq: "fst (updateAllTimes demo_host q) = None" unfolding q_def by code_simp
  have d: "baseTimezone demo_page = None"
    "currentTimezone demo_page = ''America/New_York''" "tzOffsetCache demo_page = Map.empty"
    "document demo_page =
       [\<lparr>baseTime = ''09:00'', notePrefix = None, childNodes = [TextNode ''09:00'']\<rparr>,
        \<lparr>baseTime = ''23:30'', notePrefix = Some ''Boss '',
         childNodes = [TextNode ''Boss 23:30'']\<rparr>,
        \<lparr>baseTime = time_tbd, notePrefix = None, childNodes = [TextNode time_tbd]\<rparr>]"
    by (simp_all add: demo_page_def)
  have dq: "baseTimezone q = Some ''America/New_York''"
    "currentTimezone q = ''Asia/Taipei''" "tzOffsetCache q = Map.empty"
    "document q = document demo_page"
    by (simp_all add: q_def d)
  have c0: "fst (convertTime demo_host Map.empty ''09:00'' ''Asia/Taipei'' ''America/New_York'') =
             Inr \<lparr>display = ''20:00'', dayOffset = Num (- 1)\<rparr>"
    and c1: "fst (convertTime demo_host Map.empty ''23:30'' ''Asia/Taipei'' ''America/New_York'') =
             Inr \<lparr>display = ''10:30'', dayOffset = Num 0\<rparr>"
    and c2: "fst (convertTime demo_host Map.empty time_tbd ''Asia/Taipei'' ''America/New_York'') =
             Inr \<lparr>display = time_tbd, dayOffset = Num 0\<rparr>"
    and cq: "fst (convertTime demo_host Map.empty ''23:30'' ''America/New_York'' ''Asia/Taipei'') =
             Inr \<lparr>display = ''12:30'', dayOffset = Num 1\<rparr>"
    by code_simp+
  note t = propagation_rewrites_nodes [OF h]
  note tq = propagation_rewrites_nodes [OF hq]
  have len: "length (document (snd (updateAllTimes demo_host demo_page))) = 3"
    using t by (simp add: d)
  have n0: "childNodes (document (snd (updateAllTimes demo_host demo_page)) ! 0) =
     [TextNode ''20:00'', Badge ''-1'']"
    using t [THEN conjunct2, rule_format, of 0] by (auto simp: d c0)
  have n1: "childNodes (document (snd (updateAllTimes demo_host demo_page)) ! 1) =
     [TextNode ''Boss 10:30'']"
    using t [THEN conjunct2, rule_format, of 1] by (auto simp: d c1)
  have n2: "childNodes (document (snd (updateAllTimes demo_host demo_page)) ! 2) =
     [TextNode time_tbd]"
    using t [THEN conjunct2, rule_format, of 2] by (auto simp: d c2)
  have nq: "childNodes (document (snd (updateAllTimes demo_host q)) ! 1) =
     [TextNode ''Boss 12:30'', Badge ''+1'']"
    using tq [THEN conjunct2, rule_format, of 1] by (auto simp: dq d cq)
  from h len n0 n1 n2 hq nq show ?thesis unfolding q_def by blast
qed

end
